theory Spec2Isabelle
  imports Complex_Main
begin

section \<open>Constants of \<open>platformer_game.py\<close>\<close>

definition SCREEN_WIDTH :: int where "SCREEN_WIDTH = 800"
definition SCREEN_HEIGHT :: int where "SCREEN_HEIGHT = 600"

definition PLAYER_ACC :: real where "PLAYER_ACC = 0.5"
definition PLAYER_FRICTION :: real where "PLAYER_FRICTION = - 0.12"
definition PLAYER_GRAVITY :: real where "PLAYER_GRAVITY = 0.8"
definition PLAYER_JUMP :: real where "PLAYER_JUMP = - 16"

text \<open>The game states \<open>MENU = 0\<close>, \<open>PLAYING = 1\<close>, \<open>GAME_OVER = 2\<close>, \<open>WIN = 3\<close>.\<close>

datatype game_state_t = MENU | PLAYING | GAME_OVER | WIN

section \<open>The pygame values the game uses\<close>

text \<open>
  \<open>pygame.math.Vector2\<close>: a pair of floats. The components are modelled as exact reals;
  rounding of the floating-point operations is not part of the model.
\<close>

record Vector2 =
  vec_x :: real
  vec_y :: real

definition vec_add :: "Vector2 \<Rightarrow> Vector2 \<Rightarrow> Vector2" where
  "vec_add a b = \<lparr>vec_x = vec_x a + vec_x b, vec_y = vec_y a + vec_y b\<rparr>"

definition vec_scale :: "real \<Rightarrow> Vector2 \<Rightarrow> Vector2" where
  "vec_scale c a = \<lparr>vec_x = c * vec_x a, vec_y = c * vec_y a\<rparr>"

text \<open>
  \<open>pygame.Rect\<close>: four integers. \<open>top\<close> is \<open>y\<close>, \<open>bottom\<close> is \<open>y + h\<close>,
  \<open>centery\<close> is \<open>y + (h >> 1)\<close>.
\<close>

record Rect =
  rect_x :: int
  rect_y :: int
  rect_w :: int
  rect_h :: int

definition rect_top :: "Rect \<Rightarrow> int" where
  "rect_top r = rect_y r"

definition rect_bottom :: "Rect \<Rightarrow> int" where
  "rect_bottom r = rect_y r + rect_h r"

definition rect_centery :: "Rect \<Rightarrow> int" where
  "rect_centery r = rect_y r + rect_h r div 2"

text \<open>
  A float assigned to a Rect attribute is converted with a C cast, which truncates
  towards zero.
\<close>

definition int_of_float :: "real \<Rightarrow> int" where
  "int_of_float v = (if 0 \<le> v then \<lfloor>v\<rfloor> else \<lceil>v\<rceil>)"

text \<open>\<open>rect.midbottom = v\<close> keeps the size: \<open>x = v.x - (w >> 1)\<close>, \<open>y = v.y - h\<close>.\<close>

definition set_midbottom :: "Rect \<Rightarrow> Vector2 \<Rightarrow> Rect" where
  "set_midbottom r v =
     r\<lparr>rect_x := int_of_float (vec_x v) - rect_w r div 2,
       rect_y := int_of_float (vec_y v) - rect_h r\<rparr>"

text \<open>
  \<open>Rect.colliderect\<close>: a rectangle of zero width or height collides with nothing;
  otherwise the two rectangles overlap strictly on both axes.
\<close>

definition colliderect :: "Rect \<Rightarrow> Rect \<Rightarrow> bool" where
  "colliderect a b =
     (if rect_w a = 0 \<or> rect_h a = 0 \<or> rect_w b = 0 \<or> rect_h b = 0 then False
      else min (rect_x a) (rect_x a + rect_w a) < max (rect_x b) (rect_x b + rect_w b)
         \<and> min (rect_y a) (rect_y a + rect_h a) < max (rect_y b) (rect_y b + rect_h b)
         \<and> max (rect_x a) (rect_x a + rect_w a) > min (rect_x b) (rect_x b + rect_w b)
         \<and> max (rect_y a) (rect_y a + rect_h a) > min (rect_y b) (rect_y b + rect_h b))"

text \<open>
  \<open>pygame.sprite.Sprite\<close>: every sprite of the game has a \<open>rect\<close>. A group is the list
  of its sprites in insertion order.
\<close>

record Sprite =
  rect :: Rect

text \<open>
  \<open>pygame.sprite.spritecollide(sprite, group, dokill)\<close> returns the sprites of the group
  whose rect collides with the sprite's, in group order; with \<open>dokill\<close> they are also
  removed from the group, which \<open>group_after_kill\<close> gives.
\<close>

definition spritecollide :: "'a Sprite_scheme \<Rightarrow> 'b Sprite_scheme list \<Rightarrow> 'b Sprite_scheme list" where
  "spritecollide sprite grp = filter (\<lambda>s. colliderect (rect sprite) (rect s)) grp"

definition group_after_kill :: "'a Sprite_scheme \<Rightarrow> 'b Sprite_scheme list \<Rightarrow> 'b Sprite_scheme list" where
  "group_after_kill sprite grp = filter (\<lambda>s. \<not> colliderect (rect sprite) (rect s)) grp"

text \<open>The keys and events the game reads; the sounds it plays.\<close>

datatype key = K_LEFT | K_RIGHT | K_UP | K_SPACE | K_RETURN | K_ESCAPE | K_OTHER

datatype event = QUIT | KEYDOWN key | OTHER_EVENT

datatype sound = Jump_sound | Coin_sound | Death_sound

section \<open>The sprites\<close>

text \<open>
  \<open>class Player\<close>. The field \<open>acc\<close> of the source is \<open>acc_v\<close> here (\<open>acc\<close> is a
  constant of HOL).
\<close>

record Player = Sprite +
  pos :: Vector2
  vel :: Vector2
  acc_v :: Vector2
  facing_right :: bool
  jumping :: bool
  on_ground :: bool
  lives :: int

record Platform = Sprite +
  is_moving :: bool
  move_range :: int
  move_speed :: int
  start_pos :: int
  direction :: int

text \<open>\<open>class Enemy\<close>; its \<open>start_pos\<close> and \<open>direction\<close> carry the prefix \<open>enemy_\<close>.\<close>

record Enemy = Sprite +
  patrol_range :: int
  speed :: int
  enemy_start_pos :: int
  enemy_direction :: int

text \<open>\<open>class Coin\<close> adds no field to the sprite.\<close>

type_synonym Coin = Sprite

text \<open>
  \<open>class Game\<close>. \<open>played\<close> is the log of the sounds played so far. The group
  \<open>all_sprites\<close> holds the player, then the platforms, the enemies and the coins.
\<close>

record Game =
  running :: bool
  game_state :: game_state_t
  score :: int
  level :: int
  player :: Player
  platforms :: "Platform list"
  enemies :: "Enemy list"
  coins :: "Coin list"
  played :: "sound list"

subsection \<open>Constructors\<close>

definition Player_init :: Player where
  "Player_init =
     \<lparr>rect = \<lparr>rect_x = SCREEN_WIDTH div 2 - 30 div 2, rect_y = SCREEN_HEIGHT div 2 - 40 div 2,
               rect_w = 30, rect_h = 40\<rparr>,
      pos = \<lparr>vec_x = 100, vec_y = real_of_int (SCREEN_HEIGHT - 200)\<rparr>,
      vel = \<lparr>vec_x = 0, vec_y = 0\<rparr>,
      acc_v = \<lparr>vec_x = 0, vec_y = 0\<rparr>,
      facing_right = True, jumping = False, on_ground = False, lives = 3\<rparr>"

definition Platform_init :: "int \<Rightarrow> int \<Rightarrow> int \<Rightarrow> int \<Rightarrow> bool \<Rightarrow> int \<Rightarrow> int \<Rightarrow> Platform" where
  "Platform_init x y width height moving mrange mspeed =
     \<lparr>rect = \<lparr>rect_x = x, rect_y = y, rect_w = width, rect_h = height\<rparr>,
      is_moving = moving, move_range = mrange, move_speed = mspeed,
      start_pos = x, direction = 1\<rparr>"

definition Enemy_init :: "int \<Rightarrow> int \<Rightarrow> int \<Rightarrow> int \<Rightarrow> Enemy" where
  "Enemy_init x y prange spd =
     \<lparr>rect = \<lparr>rect_x = x, rect_y = y, rect_w = 30, rect_h = 30\<rparr>,
      patrol_range = prange, speed = spd, enemy_start_pos = x, enemy_direction = 1\<rparr>"

definition Coin_init :: "int \<Rightarrow> int \<Rightarrow> Coin" where
  "Coin_init x y = \<lparr>rect = \<lparr>rect_x = x, rect_y = y, rect_w = 15, rect_h = 15\<rparr>\<rparr>"

section \<open>The player\<close>

text \<open>
  \<open>Game.player_die\<close>: the death sound, one life less, then game over when no life is
  left and otherwise the player back at the start position with zero velocity.
\<close>

definition Game_player_die :: "Game \<Rightarrow> Game" where
  "Game_player_die g =
     (let g1 = g\<lparr>played := played g @ [Death_sound]\<rparr>;
          g2 = g1\<lparr>player := (player g1)\<lparr>lives := lives (player g1) - 1\<rparr>\<rparr>
      in if lives (player g2) \<le> 0 then g2\<lparr>game_state := GAME_OVER\<rparr>
         else g2\<lparr>player := (player g2)
                   \<lparr>pos := \<lparr>vec_x = 100, vec_y = real_of_int (SCREEN_HEIGHT - 200)\<rparr>,
                     vel := \<lparr>vec_x = 0, vec_y = 0\<rparr>\<rparr>\<rparr>)"

text \<open>
  \<open>Player.jump\<close>: the rect is moved one unit down for the probe and back; the jump
  happens when the probe hits a platform and the player is not jumping.
\<close>

definition Player_jump :: "Game \<Rightarrow> Game" where
  "Player_jump g =
     (let p = player g;
          p1 = p\<lparr>rect := (rect p)\<lparr>rect_y := rect_y (rect p) + 1\<rparr>\<rparr>;
          hits = spritecollide p1 (platforms g);
          p2 = p1\<lparr>rect := (rect p1)\<lparr>rect_y := rect_y (rect p1) - 1\<rparr>\<rparr>
      in if hits \<noteq> [] \<and> \<not> jumping p2
         then g\<lparr>player := p2\<lparr>jumping := True, vel := (vel p2)\<lparr>vec_y := PLAYER_JUMP\<rparr>\<rparr>,
                played := played g @ [Jump_sound]\<rparr>
         else g\<lparr>player := p2\<rparr>)"

text \<open>
  \<open>Player.update\<close>, in its four parts. \<open>keys\<close> is the result of
  \<open>pygame.key.get_pressed()\<close>. First the equations of motion (lines 97 to 115).
\<close>

definition Player_motion :: "(key \<Rightarrow> bool) \<Rightarrow> Player \<Rightarrow> Player" where
  "Player_motion keys p =
     (let p1 = p\<lparr>acc_v := \<lparr>vec_x = 0, vec_y = PLAYER_GRAVITY\<rparr>\<rparr>;
          p2 = (if keys K_LEFT
                then p1\<lparr>acc_v := (acc_v p1)\<lparr>vec_x := - PLAYER_ACC\<rparr>, facing_right := False\<rparr>
                else p1);
          p3 = (if keys K_RIGHT
                then p2\<lparr>acc_v := (acc_v p2)\<lparr>vec_x := PLAYER_ACC\<rparr>, facing_right := True\<rparr>
                else p2);
          p4 = p3\<lparr>acc_v := (acc_v p3)\<lparr>vec_x := vec_x (acc_v p3) + vec_x (vel p3) * PLAYER_FRICTION\<rparr>\<rparr>;
          p5 = p4\<lparr>vel := vec_add (vel p4) (acc_v p4)\<rparr>;
          p6 = (if \<bar>vec_x (vel p5)\<bar> < 0.1 then p5\<lparr>vel := (vel p5)\<lparr>vec_x := 0\<rparr>\<rparr> else p5)
      in p6\<lparr>pos := vec_add (pos p6) (vec_add (vel p6) (vec_scale 0.5 (acc_v p6)))\<rparr>)"

text \<open>The wrap around the screen (lines 118 to 121).\<close>

definition Player_wrap :: "Player \<Rightarrow> Player" where
  "Player_wrap p =
     (let p1 = (if vec_x (pos p) > real_of_int SCREEN_WIDTH
                then p\<lparr>pos := (pos p)\<lparr>vec_x := 0\<rparr>\<rparr> else p)
      in if vec_x (pos p1) < 0
         then p1\<lparr>pos := (pos p1)\<lparr>vec_x := real_of_int SCREEN_WIDTH\<rparr>\<rparr> else p1)"

text \<open>
  The whole update: motion, wrap, the rect follows the position, and the player dies
  when its top edge is below the screen.
\<close>

definition Player_update :: "(key \<Rightarrow> bool) \<Rightarrow> Game \<Rightarrow> Game" where
  "Player_update keys g =
     (let p1 = Player_wrap (Player_motion keys (player g));
          p2 = p1\<lparr>rect := set_midbottom (rect p1) (pos p1)\<rparr>;
          g1 = g\<lparr>player := p2\<rparr>
      in if rect_top (rect p2) > SCREEN_HEIGHT then Game_player_die g1 else g1)"

section \<open>Platforms and enemies\<close>

definition Platform_update :: "Platform \<Rightarrow> Platform" where
  "Platform_update pl =
     (if is_moving pl
      then (let pl1 = pl\<lparr>rect := (rect pl)\<lparr>rect_x := rect_x (rect pl) + move_speed pl * direction pl\<rparr>\<rparr>
            in if \<bar>rect_x (rect pl1) - start_pos pl1\<bar> > move_range pl1
               then pl1\<lparr>direction := direction pl1 * (- 1)\<rparr> else pl1)
      else pl)"

definition Enemy_update :: "Enemy \<Rightarrow> Enemy" where
  "Enemy_update e =
     (let e1 = e\<lparr>rect := (rect e)\<lparr>rect_x := rect_x (rect e) + speed e * enemy_direction e\<rparr>\<rparr>
      in if \<bar>rect_x (rect e1) - enemy_start_pos e1\<bar> > patrol_range e1
         then e1\<lparr>enemy_direction := enemy_direction e1 * (- 1)\<rparr> else e1)"

section \<open>The game\<close>

text \<open>
  \<open>Game.update\<close>, in its four parts. \<open>all_sprites.update()\<close> updates the player first,
  then the platforms and the enemies; a coin has no update of its own.
\<close>

definition all_sprites_update :: "(key \<Rightarrow> bool) \<Rightarrow> Game \<Rightarrow> Game" where
  "all_sprites_update keys g =
     (let g1 = Player_update keys g;
          g2 = g1\<lparr>platforms := map Platform_update (platforms g1)\<rparr>
      in g2\<lparr>enemies := map Enemy_update (enemies g2)\<rparr>)"

text \<open>
  The loop of lines 366 to 369: \<open>lowest\<close> starts as the first hit and is replaced by a
  hit whose bottom is strictly greater.
\<close>

fun lowest_loop :: "Platform \<Rightarrow> Platform list \<Rightarrow> Platform" where
  "lowest_loop lowest [] = lowest"
| "lowest_loop lowest (hit # hits) =
     lowest_loop (if rect_bottom (rect hit) > rect_bottom (rect lowest) then hit else lowest) hits"

text \<open>\<open>lowest\<close> of lines 366 to 369; there is none when nothing was hit.\<close>

definition lowest_hit :: "Platform list \<Rightarrow> Platform option" where
  "lowest_hit hits = (case hits of [] \<Rightarrow> None | first # _ \<Rightarrow> Some (lowest_loop first hits))"

text \<open>The landing on a platform (lines 362 to 374).\<close>

definition land_on_platform :: "Game \<Rightarrow> Game" where
  "land_on_platform g =
     (if vec_y (vel (player g)) > 0
      then (case lowest_hit (spritecollide (player g) (platforms g)) of
              None \<Rightarrow> g
            | Some lowest \<Rightarrow>
                if vec_y (pos (player g)) < real_of_int (rect_centery (rect lowest))
                then g\<lparr>player := (player g)
                         \<lparr>pos := (pos (player g))\<lparr>vec_y := real_of_int (rect_top (rect lowest) + 1)\<rparr>,
                           vel := (vel (player g))\<lparr>vec_y := 0\<rparr>,
                           jumping := False\<rparr>\<rparr>
                else g)
      else g)"

text \<open>
  The coins (lines 376 to 384): the colliding coins leave the group before the loop
  over them starts, so the loop reads the length of the group after the removal.
\<close>

fun coin_loop :: "Coin list \<Rightarrow> Game \<Rightarrow> Game" where
  "coin_loop [] g = g"
| "coin_loop (coin # coin_hits) g =
     (let g1 = g\<lparr>score := score g + 10, played := played g @ [Coin_sound]\<rparr>
      in coin_loop coin_hits (if length (coins g1) = 0 then g1\<lparr>game_state := WIN\<rparr> else g1))"

definition collect_coins :: "Game \<Rightarrow> Game" where
  "collect_coins g =
     (let coin_hits = spritecollide (player g) (coins g)
      in coin_loop coin_hits (g\<lparr>coins := group_after_kill (player g) (coins g)\<rparr>))"

text \<open>The enemies (lines 386 to 389).\<close>

definition hit_enemies :: "Game \<Rightarrow> Game" where
  "hit_enemies g =
     (let enemy_hits = spritecollide (player g) (enemies g)
      in if enemy_hits \<noteq> [] then Game_player_die g else g)"

definition Game_update :: "(key \<Rightarrow> bool) \<Rightarrow> Game \<Rightarrow> Game" where
  "Game_update keys g = hit_enemies (collect_coins (land_on_platform (all_sprites_update keys g)))"

text \<open>
  \<open>Game.create_level\<close>: the tables of the two layouts. A platform entry with more than
  five components is a moving platform; the others take the defaults of the constructor.
  An enemy is built with the default speed 1.
\<close>

definition platform_list :: "int \<Rightarrow> (int \<times> int \<times> int \<times> int \<times> (bool \<times> int \<times> int) option) list" where
  "platform_list lvl =
     (if lvl = 1
      then [(0, SCREEN_HEIGHT - 40, SCREEN_WIDTH, 40, None),
            (100, 400, 150, 20, None),
            (300, 300, 100, 20, None),
            (500, 200, 150, 20, None),
            (250, 120, 100, 20, None),
            (650, 350, 100, 20, Some (True, 100, 1))]
      else [(0, SCREEN_HEIGHT - 40, SCREEN_WIDTH, 40, None),
            (100, 450, 100, 20, None),
            (300, 350, 100, 20, None),
            (500, 250, 100, 20, None),
            (200, 150, 100, 20, None),
            (400, 100, 100, 20, None),
            (600, 150, 100, 20, None),
            (100, 250, 100, 20, Some (True, 150, 2))])"

definition enemy_list :: "int \<Rightarrow> (int \<times> int \<times> int) list" where
  "enemy_list lvl =
     (if lvl = 1 then [(300, 280, 80), (500, 180, 100)]
      else [(300, 330, 80), (500, 230, 80), (200, 130, 80), (600, 130, 80)])"

definition coin_list :: "int \<Rightarrow> (int \<times> int) list" where
  "coin_list lvl =
     (if lvl = 1 then [(130, 370), (330, 270), (530, 170), (280, 90), (680, 320)]
      else [(130, 420), (330, 320), (530, 220), (230, 120), (430, 70), (630, 120), (130, 220)])"

fun make_platform :: "int \<times> int \<times> int \<times> int \<times> (bool \<times> int \<times> int) option \<Rightarrow> Platform" where
  "make_platform (x, y, width, height, Some (moving, mrange, mspeed)) =
     Platform_init x y width height moving mrange mspeed"
| "make_platform (x, y, width, height, None) = Platform_init x y width height False 0 0"

definition Game_create_level :: "int \<Rightarrow> Game \<Rightarrow> Game" where
  "Game_create_level lvl g =
     (let ground = Platform_init 0 (SCREEN_HEIGHT - 40) SCREEN_WIDTH 40 False 0 0;
          g1 = g\<lparr>platforms := platforms g @ [ground]\<rparr>;
          g2 = g1\<lparr>platforms := platforms g1 @ map make_platform (platform_list lvl)\<rparr>;
          g3 = g2\<lparr>enemies := enemies g2 @ map (\<lambda>(x, y, r). Enemy_init x y r 1) (enemy_list lvl)\<rparr>
      in g3\<lparr>coins := coins g3 @ map (\<lambda>(x, y). Coin_init x y) (coin_list lvl)\<rparr>)"

definition Game_new_game :: "Game \<Rightarrow> Game" where
  "Game_new_game g =
     (let g1 = g\<lparr>score := 0, game_state := PLAYING,
                 platforms := [], enemies := [], coins := [], player := Player_init\<rparr>
      in Game_create_level (level g1) g1)"

text \<open>
  \<open>Game.__init__\<close> followed by the assignment of \<open>MENU\<close> in the main block. The source
  creates the player and the groups in \<open>new_game\<close> only; until then nothing reads them
  (the update runs in state \<open>PLAYING\<close>, which is entered through \<open>new_game\<close>), and the
  model holds empty groups and a fresh player in their place.
\<close>

definition Game_init :: Game where
  "Game_init =
     \<lparr>running = True, game_state = MENU, score = 0, level = 1, player = Player_init,
      platforms = [], enemies = [], coins = [], played = []\<rparr>"

text \<open>\<open>Game.events\<close>: one event, then the queue of a frame.\<close>

definition handle_event :: "event \<Rightarrow> Game \<Rightarrow> Game" where
  "handle_event ev g =
     (let g1 = (if ev = QUIT then g\<lparr>running := False\<rparr> else g)
      in case ev of
           KEYDOWN k \<Rightarrow>
             (let g2 = (if k = K_ESCAPE then g1\<lparr>running := False\<rparr> else g1)
              in if game_state g2 = PLAYING
                 then (if k = K_SPACE \<or> k = K_UP then Player_jump g2 else g2)
                 else if game_state g2 = MENU
                 then (if k = K_RETURN then Game_new_game g2 else g2)
                 else if game_state g2 = GAME_OVER \<or> game_state g2 = WIN
                 then (if k = K_RETURN then g2\<lparr>game_state := MENU\<rparr> else g2)
                 else g2)
         | _ \<Rightarrow> g1)"

fun Game_events :: "event list \<Rightarrow> Game \<Rightarrow> Game" where
  "Game_events [] g = g"
| "Game_events (ev # evs) g = Game_events evs (handle_event ev g)"

text \<open>
  \<open>Game.run\<close>: one pass of the loop handles the events of the frame and updates the
  game when it is in state \<open>PLAYING\<close>; the loop runs while \<open>running\<close> holds. The input
  of a frame is its event queue and the keys held; the loop is run over a finite list
  of frames.
\<close>

definition frame :: "event list \<times> (key \<Rightarrow> bool) \<Rightarrow> Game \<Rightarrow> Game" where
  "frame inp g =
     (let g1 = Game_events (fst inp) g
      in if game_state g1 = PLAYING then Game_update (snd inp) g1 else g1)"

fun Game_run :: "(event list \<times> (key \<Rightarrow> bool)) list \<Rightarrow> Game \<Rightarrow> Game" where
  "Game_run [] g = g"
| "Game_run (inp # inps) g = (if running g then Game_run inps (frame inp g) else g)"

section \<open>Notions used in the statements\<close>

text \<open>A fresh game of level 1, and a frame in which no key is held.\<close>

definition level1 :: Game where
  "level1 = Game_new_game Game_init"

definition no_keys :: "key \<Rightarrow> bool" where
  "no_keys k = False"

text \<open>
  The ground probe of \<open>Player.jump\<close>: the player's rect, moved one unit down, collides
  with a platform.
\<close>

definition ground_probe :: "Game \<Rightarrow> bool" where
  "ground_probe g \<longleftrightarrow>
     (\<exists>pl \<in> set (platforms g).
        colliderect ((rect (player g))\<lparr>rect_y := rect_y (rect (player g)) + 1\<rparr>) (rect pl))"

text \<open>The first frame of level 1 after the sprites have moved: the player falls onto a platform.\<close>

definition first_fall :: Game where
  "first_fall = all_sprites_update no_keys level1"

text \<open>The landing of \<open>Game.update\<close> takes place: the player descends, a platform is hit and the
  player's position is above the centre of the lowest one.\<close>

definition landing_resolves :: "Game \<Rightarrow> bool" where
  "landing_resolves g \<longleftrightarrow>
     0 < vec_y (vel (player g))
     \<and> (case lowest_hit (spritecollide (player g) (platforms g)) of
          None \<Rightarrow> False
        | Some lowest \<Rightarrow> vec_y (pos (player g)) < real_of_int (rect_centery (rect lowest)))"

text \<open>A fresh player put at horizontal position \<open>x\<close>.\<close>

definition player_at :: "real \<Rightarrow> Player" where
  "player_at x = Player_init\<lparr>pos := \<lparr>vec_x = x, vec_y = 400\<rparr>\<rparr>"

text \<open>The moving platform of level 1.\<close>

definition moving_platform :: Platform where
  "moving_platform = Platform_init 650 350 100 20 True 100 1"

text \<open>How often the direction of a platform changes in its next \<open>n\<close> updates.\<close>

fun platform_flips :: "nat \<Rightarrow> Platform \<Rightarrow> nat" where
  "platform_flips 0 pl = 0"
| "platform_flips (Suc n) pl =
     (if direction (Platform_update pl) \<noteq> direction pl then 1 else 0)
       + platform_flips n (Platform_update pl)"

text \<open>
  The state of an oscillation with range \<open>r\<close> and speed \<open>s\<close>: the offset \<open>d\<close> from the
  origin is within the range, or it is beyond it by at most one step and the direction
  \<open>dir\<close> already points back.
\<close>

definition patrol_ok :: "int \<Rightarrow> int \<Rightarrow> int \<Rightarrow> int \<Rightarrow> bool" where
  "patrol_ok r s d dir \<longleftrightarrow>
     (dir = 1 \<or> dir = - 1)
     \<and> (\<bar>d\<bar> \<le> r \<or> (r < d \<and> d \<le> r + s \<and> dir = - 1) \<or> (- r - s \<le> d \<and> d < - r \<and> dir = 1))"

text \<open>The moving platform of level 1 after \<open>k\<close> steps to the right.\<close>

definition moving_platform_at :: "nat \<Rightarrow> Platform" where
  "moving_platform_at k = moving_platform\<lparr>rect := (rect moving_platform)\<lparr>rect_x := 650 + int k\<rparr>\<rparr>"

text \<open>A fresh player in a world without platforms, enemies and coins: nothing stops its fall.\<close>

definition free_fall :: Game where
  "free_fall = level1\<lparr>platforms := [], enemies := [], coins := []\<rparr>"

text \<open>
  What happens in an update, read off the state before it: the player's top edge ends
  below the screen; the player's rect collides with an enemy that has moved; the coins
  the player's rect collides with, and the coins that are left.
\<close>

definition fell_off :: "(key \<Rightarrow> bool) \<Rightarrow> Game \<Rightarrow> bool" where
  "fell_off keys g \<longleftrightarrow> rect_top (rect (player (Player_update keys g))) > SCREEN_HEIGHT"

definition enemy_hit :: "(key \<Rightarrow> bool) \<Rightarrow> Game \<Rightarrow> bool" where
  "enemy_hit keys g \<longleftrightarrow>
     spritecollide (player (Player_update keys g)) (map Enemy_update (enemies g)) \<noteq> []"

definition coin_hits :: "(key \<Rightarrow> bool) \<Rightarrow> Game \<Rightarrow> Coin list" where
  "coin_hits keys g = spritecollide (player (Player_update keys g)) (coins g)"

definition coins_left :: "(key \<Rightarrow> bool) \<Rightarrow> Game \<Rightarrow> Coin list" where
  "coins_left keys g = group_after_kill (player (Player_update keys g)) (coins g)"

text \<open>A rect that lies above the bottom edge of the screen.\<close>

definition on_screen :: "Rect \<Rightarrow> bool" where
  "on_screen r \<longleftrightarrow> rect_y r \<le> SCREEN_HEIGHT \<and> rect_y r + rect_h r \<le> SCREEN_HEIGHT"

text \<open>
  The invariant of the game loop: the level is 1; the lives are not negative, and at
  least 1 while playing; the state \<open>WIN\<close> has no coin left; outside the menu the score
  and the coins left add up to the value of the coins of the level; the player's rect has
  its height of 40, and the enemies and coins lie above the bottom edge of the screen.
\<close>

definition game_inv :: "Game \<Rightarrow> bool" where
  "game_inv g \<longleftrightarrow>
     level g = 1
     \<and> 0 \<le> lives (player g)
     \<and> (game_state g = PLAYING \<longrightarrow> 1 \<le> lives (player g))
     \<and> (game_state g = WIN \<longrightarrow> coins g = [])
     \<and> (game_state g \<noteq> MENU \<longrightarrow>
          score g + 10 * int (length (coins g)) = 10 * int (length (coin_list (level g))))
     \<and> rect_h (rect (player g)) = 40
     \<and> list_all (\<lambda>e. on_screen (rect e)) (enemies g)
     \<and> list_all (\<lambda>c. on_screen (rect c)) (coins g)"


text \<open>The right arrow key alone is held.\<close>

definition hold_right :: "key \<Rightarrow> bool" where
  "hold_right k \<longleftrightarrow> k = K_RIGHT"

text \<open>
  A late moment of level 1: four coins are collected, one life is left, and the player
  walks to the right on the platform at (300, 300) towards the last coin at (330, 270),
  while the first enemy comes from the right. Neither the coin nor the enemy touches the
  player's rect yet. The second enemy and the moving platform, which play no part, are
  where the level puts them.
\<close>

definition last_coin :: Game where
  "last_coin =
     level1\<lparr>score := 40,
            coins := [Coin_init 330 270],
            enemies := [(Enemy_init 300 280 80 1)
                          \<lparr>rect := \<lparr>rect_x = 331, rect_y = 280, rect_w = 30, rect_h = 30\<rparr>,
                            enemy_direction := - 1\<rparr>,
                        Enemy_init 500 180 100 1],
            player := \<lparr>rect = \<lparr>rect_x = 299, rect_y = 262, rect_w = 30, rect_h = 40\<rparr>,
                       pos = \<lparr>vec_x = 314.5, vec_y = 301\<rparr>,
                       vel = \<lparr>vec_x = 2.5, vec_y = 0\<rparr>,
                       acc_v = \<lparr>vec_x = 5 / 22, vec_y = 0.8\<rparr>,
                       facing_right = True, jumping = False, on_ground = False, lives = 1\<rparr>\<rparr>"

text \<open>
  A state outside the invariant, which no level produces: an enemy below the bottom edge
  of the screen, and the player with one life falling past that edge next to it.
\<close>

definition enemy_below_screen :: Game where
  "enemy_below_screen =
     level1\<lparr>enemies := [Enemy_init 85 610 80 1],
            player := Player_init\<lparr>pos := \<lparr>vec_x = 100, vec_y = 640\<rparr>,
                                  vel := \<lparr>vec_x = 0, vec_y = 5\<rparr>,
                                  lives := 1\<rparr>\<rparr>"

section \<open>The effect of each operation on the fields\<close>

lemma spritecollide_nonempty:
  "spritecollide s grp \<noteq> [] \<longleftrightarrow> (\<exists>t \<in> set grp. colliderect (rect s) (rect t))"
  by (auto simp: spritecollide_def filter_empty_conv)

lemma die_fields [simp]:
  "platforms (Game_player_die g) = platforms g"
  "enemies (Game_player_die g) = enemies g"
  "coins (Game_player_die g) = coins g"
  "score (Game_player_die g) = score g"
  "level (Game_player_die g) = level g"
  "running (Game_player_die g) = running g"
  "played (Game_player_die g) = played g @ [Death_sound]"
  by (simp_all add: Game_player_die_def Let_def)

lemma die_state:
  "game_state (Game_player_die g) = (if lives (player g) - 1 \<le> 0 then GAME_OVER else game_state g)"
  by (simp add: Game_player_die_def Let_def)

lemma die_player:
  "player (Game_player_die g) =
     (if lives (player g) - 1 \<le> 0 then (player g)\<lparr>lives := lives (player g) - 1\<rparr>
      else (player g)\<lparr>lives := lives (player g) - 1,
                      pos := \<lparr>vec_x = 100, vec_y = real_of_int (SCREEN_HEIGHT - 200)\<rparr>,
                      vel := \<lparr>vec_x = 0, vec_y = 0\<rparr>\<rparr>)"
  by (simp add: Game_player_die_def Let_def)

lemma die_player_fields [simp]:
  "lives (player (Game_player_die g)) = lives (player g) - 1"
  "jumping (player (Game_player_die g)) = jumping (player g)"
  "rect (player (Game_player_die g)) = rect (player g)"
  by (simp_all add: die_player)

lemma Player_jump_eq:
  "Player_jump g =
     (if ground_probe g \<and> \<not> jumping (player g)
      then g\<lparr>player := (player g)\<lparr>jumping := True, vel := (vel (player g))\<lparr>vec_y := PLAYER_JUMP\<rparr>\<rparr>,
             played := played g @ [Jump_sound]\<rparr>
      else g)"
  by (simp add: Player_jump_def Let_def ground_probe_def spritecollide_nonempty)

lemma motion_fields [simp]:
  "rect (Player_motion keys p) = rect p"
  "jumping (Player_motion keys p) = jumping p"
  "lives (Player_motion keys p) = lives p"
  "on_ground (Player_motion keys p) = on_ground p"
  by (simp_all add: Player_motion_def Let_def)

lemma wrap_fields [simp]:
  "rect (Player_wrap p) = rect p"
  "jumping (Player_wrap p) = jumping p"
  "lives (Player_wrap p) = lives p"
  "vel (Player_wrap p) = vel p"
  "acc_v (Player_wrap p) = acc_v p"
  "vec_y (pos (Player_wrap p)) = vec_y (pos p)"
  by (simp_all add: Player_wrap_def Let_def)

lemma wrap_x:
  "vec_x (pos (Player_wrap p)) =
     (if vec_x (pos p) > real_of_int SCREEN_WIDTH then 0
      else if vec_x (pos p) < 0 then real_of_int SCREEN_WIDTH else vec_x (pos p))"
  by (simp add: Player_wrap_def Let_def SCREEN_WIDTH_def)

lemma Player_update_fields [simp]:
  "platforms (Player_update keys g) = platforms g"
  "enemies (Player_update keys g) = enemies g"
  "coins (Player_update keys g) = coins g"
  "score (Player_update keys g) = score g"
  "level (Player_update keys g) = level g"
  "running (Player_update keys g) = running g"
  by (simp_all add: Player_update_def Let_def)

lemma Player_update_player_fields [simp]:
  "jumping (player (Player_update keys g)) = jumping (player g)"
  "rect_w (rect (player (Player_update keys g))) = rect_w (rect (player g))"
  "rect_h (rect (player (Player_update keys g))) = rect_h (rect (player g))"
  by (simp_all add: Player_update_def Let_def set_midbottom_def)

lemma all_sprites_update_fields [simp]:
  "coins (all_sprites_update keys g) = coins g"
  "score (all_sprites_update keys g) = score g"
  "level (all_sprites_update keys g) = level g"
  "running (all_sprites_update keys g) = running g"
  "player (all_sprites_update keys g) = player (Player_update keys g)"
  "game_state (all_sprites_update keys g) = game_state (Player_update keys g)"
  "played (all_sprites_update keys g) = played (Player_update keys g)"
  "platforms (all_sprites_update keys g) = map Platform_update (platforms g)"
  "enemies (all_sprites_update keys g) = map Enemy_update (enemies g)"
  by (simp_all add: all_sprites_update_def Let_def)

lemma land_fields [simp]:
  "platforms (land_on_platform g) = platforms g"
  "enemies (land_on_platform g) = enemies g"
  "coins (land_on_platform g) = coins g"
  "score (land_on_platform g) = score g"
  "level (land_on_platform g) = level g"
  "running (land_on_platform g) = running g"
  "game_state (land_on_platform g) = game_state g"
  "played (land_on_platform g) = played g"
  "rect (player (land_on_platform g)) = rect (player g)"
  "lives (player (land_on_platform g)) = lives (player g)"
  "vec_x (pos (player (land_on_platform g))) = vec_x (pos (player g))"
  by (simp_all add: land_on_platform_def split: option.splits)

lemma land_eq:
  "land_on_platform g =
     (if landing_resolves g
      then g\<lparr>player := (player g)
               \<lparr>pos := (pos (player g))
                   \<lparr>vec_y := real_of_int (rect_top (rect (the (lowest_hit (spritecollide (player g) (platforms g))))) + 1)\<rparr>,
                 vel := (vel (player g))\<lparr>vec_y := 0\<rparr>,
                 jumping := False\<rparr>\<rparr>
      else g)"
  by (simp add: land_on_platform_def landing_resolves_def split: option.splits)

lemma coin_loop_fields [simp]:
  "player (coin_loop cs g) = player g"
  "platforms (coin_loop cs g) = platforms g"
  "enemies (coin_loop cs g) = enemies g"
  "coins (coin_loop cs g) = coins g"
  "level (coin_loop cs g) = level g"
  "running (coin_loop cs g) = running g"
  by (induction cs arbitrary: g; simp add: Let_def)+

lemma coin_loop_score: "score (coin_loop cs g) = score g + 10 * int (length cs)"
  by (induction cs arbitrary: g) (simp_all add: Let_def)

lemma coin_loop_state:
  "game_state (coin_loop cs g) = (if cs \<noteq> [] \<and> coins g = [] then WIN else game_state g)"
  by (induction cs arbitrary: g) (simp_all add: Let_def)

lemma collect_fields [simp]:
  "player (collect_coins g) = player g"
  "platforms (collect_coins g) = platforms g"
  "enemies (collect_coins g) = enemies g"
  "level (collect_coins g) = level g"
  "running (collect_coins g) = running g"
  "coins (collect_coins g) = group_after_kill (player g) (coins g)"
  by (simp_all add: collect_coins_def Let_def)

lemma collect_score:
  "score (collect_coins g) = score g + 10 * int (length (spritecollide (player g) (coins g)))"
  by (simp add: collect_coins_def Let_def coin_loop_score)

lemma collect_state:
  "game_state (collect_coins g) =
     (if spritecollide (player g) (coins g) \<noteq> [] \<and> group_after_kill (player g) (coins g) = []
      then WIN else game_state g)"
  by (simp add: collect_coins_def Let_def coin_loop_state)

lemma hit_enemies_fields [simp]:
  "platforms (hit_enemies g) = platforms g"
  "enemies (hit_enemies g) = enemies g"
  "coins (hit_enemies g) = coins g"
  "score (hit_enemies g) = score g"
  "level (hit_enemies g) = level g"
  "running (hit_enemies g) = running g"
  "jumping (player (hit_enemies g)) = jumping (player g)"
  "rect (player (hit_enemies g)) = rect (player g)"
  by (simp_all add: hit_enemies_def Let_def)

section \<open>The landing\<close>

lemma lowest_loop_first:
  "lowest_loop l hs = r \<Longrightarrow>
     (r = l \<and> (\<forall>h \<in> set hs. rect_bottom (rect h) \<le> rect_bottom (rect l)))
   \<or> (\<exists>pre post. hs = pre @ r # post \<and> rect_bottom (rect l) < rect_bottom (rect r)
         \<and> (\<forall>h \<in> set pre. rect_bottom (rect h) < rect_bottom (rect r))
         \<and> (\<forall>h \<in> set post. rect_bottom (rect h) \<le> rect_bottom (rect r)))"
proof (induction hs arbitrary: l)
  case Nil
  then show ?case by simp
next
  case (Cons h t)
  show ?case
  proof (cases "rect_bottom (rect h) > rect_bottom (rect l)")
    case True
    with Cons.prems have run: "lowest_loop h t = r" by simp
    from Cons.IH [OF run] show ?thesis
    proof
      assume a: "r = h \<and> (\<forall>x \<in> set t. rect_bottom (rect x) \<le> rect_bottom (rect h))"
      have "h # t = [] @ r # t \<and> rect_bottom (rect l) < rect_bottom (rect r)
         \<and> (\<forall>x \<in> set []. rect_bottom (rect x) < rect_bottom (rect r))
         \<and> (\<forall>x \<in> set t. rect_bottom (rect x) \<le> rect_bottom (rect r))"
        using a True by simp
      then show ?thesis by (intro disjI2 exI)
    next
      assume "\<exists>pre post. t = pre @ r # post \<and> rect_bottom (rect h) < rect_bottom (rect r)
         \<and> (\<forall>x \<in> set pre. rect_bottom (rect x) < rect_bottom (rect r))
         \<and> (\<forall>x \<in> set post. rect_bottom (rect x) \<le> rect_bottom (rect r))"
      then obtain pre post where t: "t = pre @ r # post"
        and hr: "rect_bottom (rect h) < rect_bottom (rect r)"
        and pre: "\<forall>x \<in> set pre. rect_bottom (rect x) < rect_bottom (rect r)"
        and post: "\<forall>x \<in> set post. rect_bottom (rect x) \<le> rect_bottom (rect r)"
        by auto
      have "h # t = (h # pre) @ r # post \<and> rect_bottom (rect l) < rect_bottom (rect r)
         \<and> (\<forall>x \<in> set (h # pre). rect_bottom (rect x) < rect_bottom (rect r))
         \<and> (\<forall>x \<in> set post. rect_bottom (rect x) \<le> rect_bottom (rect r))"
        using t hr pre post True by simp
      then show ?thesis by (intro disjI2 exI)
    qed
  next
    case False
    with Cons.prems have run: "lowest_loop l t = r" by simp
    from Cons.IH [OF run] show ?thesis
    proof
      assume "r = l \<and> (\<forall>x \<in> set t. rect_bottom (rect x) \<le> rect_bottom (rect l))"
      with False show ?thesis by simp
    next
      assume "\<exists>pre post. t = pre @ r # post \<and> rect_bottom (rect l) < rect_bottom (rect r)
         \<and> (\<forall>x \<in> set pre. rect_bottom (rect x) < rect_bottom (rect r))
         \<and> (\<forall>x \<in> set post. rect_bottom (rect x) \<le> rect_bottom (rect r))"
      then obtain pre post where t: "t = pre @ r # post"
        and lr: "rect_bottom (rect l) < rect_bottom (rect r)"
        and pre: "\<forall>x \<in> set pre. rect_bottom (rect x) < rect_bottom (rect r)"
        and post: "\<forall>x \<in> set post. rect_bottom (rect x) \<le> rect_bottom (rect r)"
        by auto
      have "h # t = (h # pre) @ r # post \<and> rect_bottom (rect l) < rect_bottom (rect r)
         \<and> (\<forall>x \<in> set (h # pre). rect_bottom (rect x) < rect_bottom (rect r))
         \<and> (\<forall>x \<in> set post. rect_bottom (rect x) \<le> rect_bottom (rect r))"
        using t lr pre post False by simp
      then show ?thesis by (intro disjI2 exI)
    qed
  qed
qed

lemma lowest_hit_None: "lowest_hit hits = None \<longleftrightarrow> hits = []"
  by (simp add: lowest_hit_def split: list.splits)

lemma lowest_hit_first_greatest:
  assumes "lowest_hit hits = Some lowest"
  shows "\<exists>pre post. hits = pre @ lowest # post
           \<and> (\<forall>h \<in> set pre. rect_bottom (rect h) < rect_bottom (rect lowest))
           \<and> (\<forall>h \<in> set post. rect_bottom (rect h) \<le> rect_bottom (rect lowest))"
proof -
  from assms obtain first rest where hits: "hits = first # rest"
    and run: "lowest_loop first rest = lowest"
    by (auto simp: lowest_hit_def split: list.splits)
  from lowest_loop_first [OF run] show ?thesis
  proof
    assume "lowest = first \<and> (\<forall>h \<in> set rest. rect_bottom (rect h) \<le> rect_bottom (rect first))"
    then have "hits = [] @ lowest # rest
        \<and> (\<forall>h \<in> set []. rect_bottom (rect h) < rect_bottom (rect lowest))
        \<and> (\<forall>h \<in> set rest. rect_bottom (rect h) \<le> rect_bottom (rect lowest))"
      using hits by simp
    then show ?thesis by (intro exI)
  next
    assume "\<exists>pre post. rest = pre @ lowest # post \<and> rect_bottom (rect first) < rect_bottom (rect lowest)
         \<and> (\<forall>x \<in> set pre. rect_bottom (rect x) < rect_bottom (rect lowest))
         \<and> (\<forall>x \<in> set post. rect_bottom (rect x) \<le> rect_bottom (rect lowest))"
    then obtain pre post where t: "rest = pre @ lowest # post"
      and lr: "rect_bottom (rect first) < rect_bottom (rect lowest)"
      and pre: "\<forall>x \<in> set pre. rect_bottom (rect x) < rect_bottom (rect lowest)"
      and post: "\<forall>x \<in> set post. rect_bottom (rect x) \<le> rect_bottom (rect lowest)"
      by auto
    have "hits = (first # pre) @ lowest # post
      \<and> (\<forall>x \<in> set (first # pre). rect_bottom (rect x) < rect_bottom (rect lowest))
      \<and> (\<forall>x \<in> set post. rect_bottom (rect x) \<le> rect_bottom (rect lowest))"
      using hits t lr pre post by simp
    then show ?thesis by (intro exI)
  qed
qed

text \<open>
  Claim C1. When the player descends and its rect collides with a platform, the game
  selects, among the colliding platforms in group order, the first one of greatest
  bottom edge: every platform before it has a strictly smaller bottom, every platform
  after it a bottom not greater. When the player's vertical position is above the
  centre of that platform, the position becomes the platform's top edge plus 1, the
  vertical velocity 0 and the jumping flag false, and nothing else changes; otherwise
  the game is unchanged. A position changed by the landing is at most 1 below the top
  edge. Nothing happens when the vertical velocity is not positive, or when no platform
  is hit.
\<close>

theorem C1_landing:
  "(spritecollide (player g) (platforms g) \<noteq> [] \<longrightarrow>
      lowest_hit (spritecollide (player g) (platforms g)) \<noteq> None)
   \<and> (lowest_hit (spritecollide (player g) (platforms g)) = Some lowest \<longrightarrow>
        (\<exists>pre post. spritecollide (player g) (platforms g) = pre @ lowest # post
           \<and> (\<forall>h \<in> set pre. rect_bottom (rect h) < rect_bottom (rect lowest))
           \<and> (\<forall>h \<in> set post. rect_bottom (rect h) \<le> rect_bottom (rect lowest)))
        \<and> (0 < vec_y (vel (player g))
             \<and> vec_y (pos (player g)) < real_of_int (rect_centery (rect lowest)) \<longrightarrow>
             land_on_platform g =
               g\<lparr>player := (player g)
                   \<lparr>pos := (pos (player g))\<lparr>vec_y := real_of_int (rect_top (rect lowest) + 1)\<rparr>,
                     vel := (vel (player g))\<lparr>vec_y := 0\<rparr>,
                     jumping := False\<rparr>\<rparr>)
        \<and> (\<not> vec_y (pos (player g)) < real_of_int (rect_centery (rect lowest)) \<longrightarrow>
             land_on_platform g = g)
        \<and> (pos (player (land_on_platform g)) \<noteq> pos (player g) \<longrightarrow>
             vec_y (pos (player (land_on_platform g))) \<le> real_of_int (rect_top (rect lowest)) + 1))
   \<and> (spritecollide (player g) (platforms g) = [] \<longrightarrow> land_on_platform g = g)
   \<and> (\<not> 0 < vec_y (vel (player g)) \<longrightarrow> land_on_platform g = g)"
proof (intro conjI impI)
  assume "spritecollide (player g) (platforms g) \<noteq> []"
  then show "lowest_hit (spritecollide (player g) (platforms g)) \<noteq> None"
    by (simp add: lowest_hit_None)
next
  assume low: "lowest_hit (spritecollide (player g) (platforms g)) = Some lowest"
  from lowest_hit_first_greatest [OF low]
  show "\<exists>pre post. spritecollide (player g) (platforms g) = pre @ lowest # post
           \<and> (\<forall>h \<in> set pre. rect_bottom (rect h) < rect_bottom (rect lowest))
           \<and> (\<forall>h \<in> set post. rect_bottom (rect h) \<le> rect_bottom (rect lowest))" .
next
  assume low: "lowest_hit (spritecollide (player g) (platforms g)) = Some lowest"
    and "0 < vec_y (vel (player g))
           \<and> vec_y (pos (player g)) < real_of_int (rect_centery (rect lowest))"
  then show "land_on_platform g =
               g\<lparr>player := (player g)
                   \<lparr>pos := (pos (player g))\<lparr>vec_y := real_of_int (rect_top (rect lowest) + 1)\<rparr>,
                     vel := (vel (player g))\<lparr>vec_y := 0\<rparr>,
                     jumping := False\<rparr>\<rparr>"
    by (simp add: land_on_platform_def)
next
  assume low: "lowest_hit (spritecollide (player g) (platforms g)) = Some lowest"
    and "\<not> vec_y (pos (player g)) < real_of_int (rect_centery (rect lowest))"
  then show "land_on_platform g = g"
    by (simp add: land_on_platform_def)
next
  assume low: "lowest_hit (spritecollide (player g) (platforms g)) = Some lowest"
    and "pos (player (land_on_platform g)) \<noteq> pos (player g)"
  then show "vec_y (pos (player (land_on_platform g))) \<le> real_of_int (rect_top (rect lowest)) + 1"
    by (simp add: land_on_platform_def split: if_splits)
next
  assume "spritecollide (player g) (platforms g) = []"
  then show "land_on_platform g = g" by (simp add: land_on_platform_def lowest_hit_def)
next
  assume "\<not> 0 < vec_y (vel (player g))"
  then show "land_on_platform g = g" by (simp add: land_on_platform_def)
qed

text \<open>
  In the first frame of level 1 the player falls from (100, 400) onto the platform at
  (100, 400): the landing puts it at height 401. Before the frame the velocity is zero
  and the landing does nothing.
\<close>

theorem C1_landing_witness:
  "lowest_hit (spritecollide (player first_fall) (platforms first_fall))
     = Some (Platform_init 100 400 150 20 False 0 0)
   \<and> 0 < vec_y (vel (player first_fall))
   \<and> vec_y (pos (player first_fall)) = 401.2
   \<and> pos (player (land_on_platform first_fall)) = \<lparr>vec_x = 100, vec_y = 401\<rparr>
   \<and> vel (player (land_on_platform first_fall)) = \<lparr>vec_x = 0, vec_y = 0\<rparr>
   \<and> \<not> jumping (player (land_on_platform first_fall))
   \<and> \<not> 0 < vec_y (vel (player level1))
   \<and> land_on_platform level1 = level1"
proof -
  have low: "lowest_hit (spritecollide (player first_fall) (platforms first_fall))
     = Some (Platform_init 100 400 150 20 False 0 0)"
    by code_simp
  have down: "0 < vec_y (vel (player first_fall))
     \<and> vec_y (pos (player first_fall))
         < real_of_int (rect_centery (rect (Platform_init 100 400 150 20 False 0 0)))"
    by code_simp
  have at: "vec_y (pos (player first_fall)) = 401.2" "vec_x (pos (player first_fall)) = 100"
    "vec_x (vel (player first_fall)) = 0"
    by code_simp+
  have rest: "\<not> 0 < vec_y (vel (player level1))"
    by code_simp
  note thm1 = C1_landing [of first_fall "Platform_init 100 400 150 20 False 0 0"]
  from thm1 low down have landed: "land_on_platform first_fall =
      first_fall\<lparr>player := (player first_fall)
         \<lparr>pos := (pos (player first_fall))
             \<lparr>vec_y := real_of_int (rect_top (rect (Platform_init 100 400 150 20 False 0 0)) + 1)\<rparr>,
           vel := (vel (player first_fall))\<lparr>vec_y := 0\<rparr>,
           jumping := False\<rparr>\<rparr>"
    by blast
  from C1_landing [of level1 "Platform_init 100 400 150 20 False 0 0"] rest have still: "land_on_platform level1 = level1"
    by blast
  have p: "pos (player (land_on_platform first_fall)) = \<lparr>vec_x = 100, vec_y = 401\<rparr>"
    using at by (simp add: landed Platform_init_def rect_top_def)
  have v: "vel (player (land_on_platform first_fall)) = \<lparr>vec_x = 0, vec_y = 0\<rparr>"
    using at by (simp add: landed)
  have j: "\<not> jumping (player (land_on_platform first_fall))"
    by (simp add: landed)
  show ?thesis using low down at(1) p v j rest still by simp
qed

section \<open>The jump\<close>

text \<open>
  Claim C6. A jump request changes the player exactly when the jumping flag is false and
  the ground probe hits a platform. Then the flag becomes true and the vertical velocity
  the (negative) jump impulse, the jump sound is played and nothing else changes. In every
  other case the request leaves the whole game, and so the whole player, unchanged.
\<close>

theorem C6_jump_contract:
  "(player (Player_jump g) \<noteq> player g \<longleftrightarrow> \<not> jumping (player g) \<and> ground_probe g)
   \<and> (\<not> jumping (player g) \<and> ground_probe g \<longrightarrow>
        Player_jump g =
          g\<lparr>player := (player g)\<lparr>jumping := True, vel := (vel (player g))\<lparr>vec_y := PLAYER_JUMP\<rparr>\<rparr>,
            played := played g @ [Jump_sound]\<rparr>
        \<and> jumping (player (Player_jump g))
        \<and> vec_y (vel (player (Player_jump g))) = PLAYER_JUMP \<and> PLAYER_JUMP < 0)
   \<and> (\<not> (\<not> jumping (player g) \<and> ground_probe g) \<longrightarrow> Player_jump g = g)"
proof (cases "\<not> jumping (player g) \<and> ground_probe g")
  case True
  then have eq: "Player_jump g =
      g\<lparr>player := (player g)\<lparr>jumping := True, vel := (vel (player g))\<lparr>vec_y := PLAYER_JUMP\<rparr>\<rparr>,
        played := played g @ [Jump_sound]\<rparr>"
    by (simp add: Player_jump_eq)
  have "jumping (player (Player_jump g))" by (simp add: eq)
  with True have ne: "player (Player_jump g) \<noteq> player g" by auto
  show ?thesis using True eq ne by (simp add: PLAYER_JUMP_def)
next
  case False
  then have "Player_jump g = g" by (auto simp add: Player_jump_eq)
  with False show ?thesis by simp
qed

text \<open>
  In a fresh level 1 the player's rect, still at the centre of the screen, touches the
  platform at (300, 300): the first jump request is honoured, the second is not.
\<close>

theorem C6_jump_contract_witness:
  "\<not> jumping (player level1) \<and> ground_probe level1
   \<and> jumping (player (Player_jump level1))
   \<and> vec_y (vel (player (Player_jump level1))) = - 16
   \<and> Player_jump (Player_jump level1) = Player_jump level1"
proof -
  have h: "\<not> jumping (player level1) \<and> ground_probe level1"
    by code_simp
  from C6_jump_contract [of level1] h
  have j: "jumping (player (Player_jump level1))"
    and v: "vec_y (vel (player (Player_jump level1))) = PLAYER_JUMP"
    by blast+
  from C6_jump_contract [of "Player_jump level1"] j
  have "Player_jump (Player_jump level1) = Player_jump level1"
    by blast
  with h j v show ?thesis by (simp add: PLAYER_JUMP_def)
qed

section \<open>The death procedure\<close>

text \<open>
  Claim C9. When the death procedure leaves at least one life, the player is put at
  the start position (100, SCREEN_HEIGHT - 200) with velocity (0, 0), and the score, the
  coins, the enemies, the platforms and the game state are unchanged.
\<close>

theorem C9_respawn_frame:
  "0 < lives (player g) - 1 \<longrightarrow>
     pos (player (Game_player_die g)) = \<lparr>vec_x = 100, vec_y = real_of_int (SCREEN_HEIGHT - 200)\<rparr>
   \<and> vel (player (Game_player_die g)) = \<lparr>vec_x = 0, vec_y = 0\<rparr>
   \<and> lives (player (Game_player_die g)) = lives (player g) - 1
   \<and> score (Game_player_die g) = score g
   \<and> coins (Game_player_die g) = coins g
   \<and> enemies (Game_player_die g) = enemies g
   \<and> platforms (Game_player_die g) = platforms g
   \<and> game_state (Game_player_die g) = game_state g
   \<and> level (Game_player_die g) = level g"
  by (simp add: die_player die_state)

theorem C9_respawn_frame_witness:
  "0 < lives (player first_fall) - 1
   \<and> pos (player (Game_player_die first_fall)) = \<lparr>vec_x = 100, vec_y = 400\<rparr>
   \<and> vel (player (Game_player_die first_fall)) = \<lparr>vec_x = 0, vec_y = 0\<rparr>
   \<and> lives (player (Game_player_die first_fall)) = 2
   \<and> score (Game_player_die first_fall) = score first_fall
   \<and> coins (Game_player_die first_fall) = coins first_fall
   \<and> game_state (Game_player_die first_fall) = PLAYING"
proof -
  have h: "0 < lives (player first_fall) - 1" "lives (player first_fall) = 3"
    "game_state first_fall = PLAYING"
    by code_simp+
  from C9_respawn_frame [of first_fall] h show ?thesis
    by (simp add: SCREEN_HEIGHT_def)
qed

text \<open>
  Claim C10. The death procedure never touches the jumping flag; its respawn branch
  changes the sound log and the player's lives, position and velocity only. While the
  flag is true a jump request does nothing, events in state \<open>PLAYING\<close> keep the flag, and
  an update keeps it unless the landing takes place, which clears it.
\<close>

theorem C10_jumping_survives_respawn:
  "jumping (player (Game_player_die g)) = jumping (player g)
   \<and> (0 < lives (player g) - 1 \<longrightarrow>
        Game_player_die g =
          g\<lparr>played := played g @ [Death_sound],
            player := (player g)\<lparr>lives := lives (player g) - 1,
                        pos := \<lparr>vec_x = 100, vec_y = real_of_int (SCREEN_HEIGHT - 200)\<rparr>,
                        vel := \<lparr>vec_x = 0, vec_y = 0\<rparr>\<rparr>\<rparr>)
   \<and> (jumping (player g) \<longrightarrow> Player_jump g = g)
   \<and> (jumping (player g) \<and> game_state g = PLAYING \<longrightarrow> jumping (player (handle_event ev g)))
   \<and> (jumping (player g) \<and> \<not> landing_resolves (all_sprites_update keys g) \<longrightarrow>
        jumping (player (Game_update keys g)))
   \<and> (landing_resolves (all_sprites_update keys g) \<longrightarrow> \<not> jumping (player (Game_update keys g)))"
proof (intro conjI impI)
  show "jumping (player (Game_player_die g)) = jumping (player g)" by simp
next
  assume "0 < lives (player g) - 1"
  then show "Game_player_die g =
          g\<lparr>played := played g @ [Death_sound],
            player := (player g)\<lparr>lives := lives (player g) - 1,
                        pos := \<lparr>vec_x = 100, vec_y = real_of_int (SCREEN_HEIGHT - 200)\<rparr>,
                        vel := \<lparr>vec_x = 0, vec_y = 0\<rparr>\<rparr>\<rparr>"
    by (simp add: Game_player_die_def Let_def)
next
  assume "jumping (player g)"
  then show "Player_jump g = g" by (simp add: Player_jump_eq)
next
  assume a: "jumping (player g) \<and> game_state g = PLAYING"
  show "jumping (player (handle_event ev g))"
  proof (cases ev)
    case (KEYDOWN k)
    with a show ?thesis by (simp add: handle_event_def Let_def Player_jump_eq)
  qed (use a in \<open>simp_all add: handle_event_def\<close>)
next
  assume "jumping (player g) \<and> \<not> landing_resolves (all_sprites_update keys g)"
  then show "jumping (player (Game_update keys g))"
    by (simp add: Game_update_def land_eq)
next
  assume "landing_resolves (all_sprites_update keys g)"
  then show "\<not> jumping (player (Game_update keys g))"
    by (simp add: Game_update_def land_eq)
qed

text \<open>
  The player of level 1 jumps and dies: it respawns with the flag still true and a jump
  request does nothing. After the jump alone, the next update has no landing (the
  player rises) and keeps the flag; in the first frame of level 1 the landing takes place.
\<close>

theorem C10_jumping_survives_respawn_witness:
  "jumping (player (Player_jump level1))
   \<and> 0 < lives (player (Player_jump level1)) - 1
   \<and> game_state (Player_jump level1) = PLAYING
   \<and> jumping (player (Game_player_die (Player_jump level1)))
   \<and> pos (player (Game_player_die (Player_jump level1))) = \<lparr>vec_x = 100, vec_y = 400\<rparr>
   \<and> Player_jump (Game_player_die (Player_jump level1)) = Game_player_die (Player_jump level1)
   \<and> jumping (player (handle_event (KEYDOWN K_SPACE) (Player_jump level1)))
   \<and> \<not> landing_resolves (all_sprites_update no_keys (Player_jump level1))
   \<and> jumping (player (Game_update no_keys (Player_jump level1)))
   \<and> landing_resolves (all_sprites_update no_keys level1)
   \<and> \<not> jumping (player (Game_update no_keys level1))"
proof -
  have h: "jumping (player (Player_jump level1))" "0 < lives (player (Player_jump level1)) - 1"
    "game_state (Player_jump level1) = PLAYING"
    "\<not> landing_resolves (all_sprites_update no_keys (Player_jump level1))"
    "landing_resolves (all_sprites_update no_keys level1)"
    by code_simp+
  note dead = C10_jumping_survives_respawn [of "Player_jump level1" "KEYDOWN K_SPACE" no_keys]
  from dead h have d1: "jumping (player (Game_player_die (Player_jump level1)))"
    by blast
  from dead h have d2: "Game_player_die (Player_jump level1) =
          (Player_jump level1)\<lparr>played := played (Player_jump level1) @ [Death_sound],
            player := (player (Player_jump level1))\<lparr>lives := lives (player (Player_jump level1)) - 1,
                        pos := \<lparr>vec_x = 100, vec_y = real_of_int (SCREEN_HEIGHT - 200)\<rparr>,
                        vel := \<lparr>vec_x = 0, vec_y = 0\<rparr>\<rparr>\<rparr>"
    by blast
  have d3: "pos (player (Game_player_die (Player_jump level1))) = \<lparr>vec_x = 100, vec_y = 400\<rparr>"
    by (simp add: d2 SCREEN_HEIGHT_def)
  from dead h have d4: "jumping (player (handle_event (KEYDOWN K_SPACE) (Player_jump level1)))"
    and d5: "jumping (player (Game_update no_keys (Player_jump level1)))"
    by blast+
  from C10_jumping_survives_respawn [of "Game_player_die (Player_jump level1)" QUIT no_keys] d1
  have d6: "Player_jump (Game_player_die (Player_jump level1)) = Game_player_die (Player_jump level1)"
    by blast
  from C10_jumping_survives_respawn [of level1 QUIT no_keys] h
  have d7: "\<not> jumping (player (Game_update no_keys level1))"
    by blast
  show ?thesis using h d1 d3 d4 d5 d6 d7 by simp
qed

section \<open>Moving platforms and enemies\<close>

lemma Platform_update_eq:
  "Platform_update pl =
    (if is_moving pl then
      pl\<lparr>rect := (rect pl)\<lparr>rect_x := rect_x (rect pl) + move_speed pl * direction pl\<rparr>,
         direction :=
           (if \<bar>rect_x (rect pl) + move_speed pl * direction pl - start_pos pl\<bar> > move_range pl
            then - direction pl else direction pl)\<rparr>
     else pl)"
  by (simp add: Platform_update_def Let_def)

lemma Enemy_update_eq:
  "Enemy_update e =
      e\<lparr>rect := (rect e)\<lparr>rect_x := rect_x (rect e) + speed e * enemy_direction e\<rparr>,
        enemy_direction :=
          (if \<bar>rect_x (rect e) + speed e * enemy_direction e - enemy_start_pos e\<bar> > patrol_range e
           then - enemy_direction e else enemy_direction e)\<rparr>"
  by (simp add: Enemy_update_def Let_def)

lemma patrol_bound: "patrol_ok r s d dir \<Longrightarrow> 0 \<le> r \<Longrightarrow> 0 \<le> s \<Longrightarrow> \<bar>d\<bar> \<le> r + s"
  unfolding patrol_ok_def by auto

lemma patrol_step:
  assumes "patrol_ok r s d dir" "0 \<le> r" "0 \<le> s"
  shows "patrol_ok r s (d + s * dir) (if \<bar>d + s * dir\<bar> > r then - dir else dir)"
proof -
  from assms(1) have "dir = 1 \<or> dir = - 1" by (simp add: patrol_ok_def)
  then show ?thesis
  proof
    assume d: "dir = 1"
    with assms show ?thesis unfolding patrol_ok_def by (simp split: if_splits) linarith
  next
    assume d: "dir = - 1"
    with assms show ?thesis unfolding patrol_ok_def by (simp split: if_splits) linarith
  qed
qed

lemma Platform_update_keeps [simp]:
  "is_moving (Platform_update pl) = is_moving pl"
  "move_range (Platform_update pl) = move_range pl"
  "move_speed (Platform_update pl) = move_speed pl"
  "start_pos (Platform_update pl) = start_pos pl"
  "rect_y (rect (Platform_update pl)) = rect_y (rect pl)"
  "rect_w (rect (Platform_update pl)) = rect_w (rect pl)"
  "rect_h (rect (Platform_update pl)) = rect_h (rect pl)"
  by (simp_all add: Platform_update_eq)

lemma Enemy_update_keeps [simp]:
  "patrol_range (Enemy_update e) = patrol_range e"
  "speed (Enemy_update e) = speed e"
  "enemy_start_pos (Enemy_update e) = enemy_start_pos e"
  "rect_y (rect (Enemy_update e)) = rect_y (rect e)"
  "rect_w (rect (Enemy_update e)) = rect_w (rect e)"
  "rect_h (rect (Enemy_update e)) = rect_h (rect e)"
  by (simp_all add: Enemy_update_eq)

lemma Platform_update_patrol:
  assumes "patrol_ok (move_range pl) (move_speed pl) (rect_x (rect pl) - start_pos pl) (direction pl)"
    and "0 \<le> move_range pl" "0 \<le> move_speed pl"
  shows "patrol_ok (move_range pl) (move_speed pl)
           (rect_x (rect (Platform_update pl)) - start_pos pl) (direction (Platform_update pl))"
proof (cases "is_moving pl")
  case True
  have eq: "rect_x (rect pl) + move_speed pl * direction pl - start_pos pl
      = rect_x (rect pl) - start_pos pl + move_speed pl * direction pl"
    by simp
  from patrol_step [OF assms] True show ?thesis
    by (simp add: Platform_update_eq eq)
next
  case False
  with assms(1) show ?thesis by (simp add: Platform_update_eq)
qed

lemma Enemy_update_patrol:
  assumes "patrol_ok (patrol_range e) (speed e) (rect_x (rect e) - enemy_start_pos e) (enemy_direction e)"
    and "0 \<le> patrol_range e" "0 \<le> speed e"
  shows "patrol_ok (patrol_range e) (speed e)
           (rect_x (rect (Enemy_update e)) - enemy_start_pos e) (enemy_direction (Enemy_update e))"
proof -
  have eq: "rect_x (rect e) + speed e * enemy_direction e - enemy_start_pos e
      = rect_x (rect e) - enemy_start_pos e + speed e * enemy_direction e"
    by simp
  from patrol_step [OF assms] show ?thesis
    by (simp add: Enemy_update_eq eq)
qed

lemma Platform_updates_keep [simp]:
  "move_range ((Platform_update ^^ n) pl) = move_range pl"
  "move_speed ((Platform_update ^^ n) pl) = move_speed pl"
  "start_pos ((Platform_update ^^ n) pl) = start_pos pl"
  by (induction n) simp_all

lemma Enemy_updates_keep [simp]:
  "patrol_range ((Enemy_update ^^ n) e) = patrol_range e"
  "speed ((Enemy_update ^^ n) e) = speed e"
  "enemy_start_pos ((Enemy_update ^^ n) e) = enemy_start_pos e"
  by (induction n) simp_all

lemma Platform_updates_patrol:
  assumes "patrol_ok (move_range pl) (move_speed pl) (rect_x (rect pl) - start_pos pl) (direction pl)"
    and "0 \<le> move_range pl" "0 \<le> move_speed pl"
  shows "patrol_ok (move_range pl) (move_speed pl)
           (rect_x (rect ((Platform_update ^^ n) pl)) - start_pos pl)
           (direction ((Platform_update ^^ n) pl))"
proof (induction n)
  case 0
  from assms(1) show ?case by simp
next
  case (Suc n)
  from Platform_update_patrol [of "(Platform_update ^^ n) pl"] Suc assms(2,3)
  show ?case by simp
qed

lemma Enemy_updates_patrol:
  assumes "patrol_ok (patrol_range e) (speed e) (rect_x (rect e) - enemy_start_pos e) (enemy_direction e)"
    and "0 \<le> patrol_range e" "0 \<le> speed e"
  shows "patrol_ok (patrol_range e) (speed e)
           (rect_x (rect ((Enemy_update ^^ n) e)) - enemy_start_pos e)
           (enemy_direction ((Enemy_update ^^ n) e))"
proof (induction n)
  case 0
  from assms(1) show ?case by simp
next
  case (Suc n)
  from Enemy_update_patrol [of "(Enemy_update ^^ n) e"] Suc assms(2,3)
  show ?case by simp
qed

lemma moving_platform_at_direction [simp]: "direction (moving_platform_at k) = 1"
  by (simp add: moving_platform_at_def moving_platform_def Platform_init_def)

lemma moving_platform_step:
  "k < 100 \<Longrightarrow> Platform_update (moving_platform_at k) = moving_platform_at (Suc k)"
  by (simp add: moving_platform_at_def moving_platform_def Platform_init_def Platform_update_eq)

lemma moving_platform_turn:
  "Platform_update (moving_platform_at 100) = (moving_platform_at 101)\<lparr>direction := - 1\<rparr>"
  by (simp add: moving_platform_at_def moving_platform_def Platform_init_def Platform_update_eq)

lemma moving_platform_run:
  "n \<le> 100 \<Longrightarrow> (Platform_update ^^ n) moving_platform = moving_platform_at n"
proof (induction n)
  case 0
  show ?case by (simp add: moving_platform_at_def moving_platform_def Platform_init_def)
next
  case (Suc n)
  then show ?case by (simp add: moving_platform_step)
qed

lemma moving_platform_101:
  "(Platform_update ^^ 101) moving_platform = (moving_platform_at 101)\<lparr>direction := - 1\<rparr>"
proof -
  have "(Platform_update ^^ Suc 100) moving_platform
      = Platform_update ((Platform_update ^^ 100) moving_platform)"
    by (simp only: funpow.simps o_apply)
  also have "\<dots> = (moving_platform_at 101)\<lparr>direction := - 1\<rparr>"
    by (simp only: moving_platform_run [of 100, simplified] moving_platform_turn)
  finally show ?thesis by simp
qed

lemma moving_platform_flips:
  "k + n \<le> 101 \<Longrightarrow> k \<le> 100 \<Longrightarrow>
     platform_flips n (moving_platform_at k) = (if k + n = 101 then 1 else 0)"
proof (induction n arbitrary: k)
  case 0
  then show ?case by simp
next
  case (Suc n)
  show ?case
  proof (cases "k = 100")
    case True
    with Suc.prems have n: "n = 0" by simp
    with True show ?thesis by (simp add: moving_platform_turn)
  next
    case False
    with Suc.prems have k: "k < 100" by simp
    have "platform_flips n (moving_platform_at (Suc k)) = (if Suc k + n = 101 then 1 else 0)"
      using Suc.prems k by (intro Suc.IH) simp_all
    with k show ?thesis by (simp add: moving_platform_step)
  qed
qed

text \<open>
  Claim C4 as stated fails: the moving platform of level 1 (origin 650, range 100,
  speed 1) is at 751 after 101 updates, outside [550, 750].
\<close>

theorem C4_patrol_range_counterexample:
  "\<not> (550 \<le> rect_x (rect ((Platform_update ^^ 101) moving_platform))
       \<and> rect_x (rect ((Platform_update ^^ 101) moving_platform)) \<le> 750)"
  by (simp add: moving_platform_101 moving_platform_at_def)

text \<open>
  Claim C4, amended. The direction is reversed after the step that leaves the range, so
  a platform or enemy built at \<open>x\<close> with range \<open>r \<ge> 0\<close> and speed \<open>s \<ge> 0\<close> stays within
  \<open>[x - r - s, x + r + s]\<close> after every update. An update negates the direction exactly
  when the new distance from the origin exceeds the range (for a platform: when it is a
  moving one). The moving platform of level 1 is at \<open>650 + n\<close> after \<open>n \<le> 100\<close> updates,
  and after 101 updates it is at 751 and its direction has changed exactly once.
\<close>

theorem C4_patrol_range:
  "(0 \<le> r \<and> 0 \<le> s \<longrightarrow>
      \<bar>rect_x (rect ((Platform_update ^^ n) (Platform_init x y w h m r s))) - x\<bar> \<le> r + s
    \<and> \<bar>rect_x (rect ((Enemy_update ^^ n) (Enemy_init x y r s))) - x\<bar> \<le> r + s)
   \<and> direction (Platform_update pl) =
       (if is_moving pl \<and> \<bar>rect_x (rect (Platform_update pl)) - start_pos pl\<bar> > move_range pl
        then - direction pl else direction pl)
   \<and> enemy_direction (Enemy_update e) =
       (if \<bar>rect_x (rect (Enemy_update e)) - enemy_start_pos e\<bar> > patrol_range e
        then - enemy_direction e else enemy_direction e)
   \<and> (k \<le> 100 \<longrightarrow> rect_x (rect ((Platform_update ^^ k) moving_platform)) = 650 + int k
                   \<and> direction ((Platform_update ^^ k) moving_platform) = 1)
   \<and> rect_x (rect ((Platform_update ^^ 101) moving_platform)) = 751
   \<and> direction ((Platform_update ^^ 101) moving_platform) = - 1
   \<and> platform_flips 101 moving_platform = 1"
proof (intro conjI impI)
  assume a: "0 \<le> r \<and> 0 \<le> s"
  let ?pl = "Platform_init x y w h m r s"
  have "patrol_ok (move_range ?pl) (move_speed ?pl) (rect_x (rect ?pl) - start_pos ?pl) (direction ?pl)"
    using a by (simp add: Platform_init_def patrol_ok_def)
  moreover have "0 \<le> move_range ?pl" "0 \<le> move_speed ?pl"
    using a by (simp_all add: Platform_init_def)
  ultimately have "patrol_ok (move_range ?pl) (move_speed ?pl)
           (rect_x (rect ((Platform_update ^^ n) ?pl)) - start_pos ?pl)
           (direction ((Platform_update ^^ n) ?pl))"
    by (rule Platform_updates_patrol)
  then have "patrol_ok r s (rect_x (rect ((Platform_update ^^ n) ?pl)) - x)
           (direction ((Platform_update ^^ n) ?pl))"
    by (simp add: Platform_init_def)
  with a show "\<bar>rect_x (rect ((Platform_update ^^ n) ?pl)) - x\<bar> \<le> r + s"
    by (simp add: patrol_bound)
next
  assume a: "0 \<le> r \<and> 0 \<le> s"
  let ?e = "Enemy_init x y r s"
  have "patrol_ok (patrol_range ?e) (speed ?e) (rect_x (rect ?e) - enemy_start_pos ?e) (enemy_direction ?e)"
    using a by (simp add: Enemy_init_def patrol_ok_def)
  moreover have "0 \<le> patrol_range ?e" "0 \<le> speed ?e"
    using a by (simp_all add: Enemy_init_def)
  ultimately have "patrol_ok (patrol_range ?e) (speed ?e)
           (rect_x (rect ((Enemy_update ^^ n) ?e)) - enemy_start_pos ?e)
           (enemy_direction ((Enemy_update ^^ n) ?e))"
    by (rule Enemy_updates_patrol)
  then have "patrol_ok r s (rect_x (rect ((Enemy_update ^^ n) ?e)) - x)
           (enemy_direction ((Enemy_update ^^ n) ?e))"
    by (simp add: Enemy_init_def)
  with a show "\<bar>rect_x (rect ((Enemy_update ^^ n) ?e)) - x\<bar> \<le> r + s"
    by (simp add: patrol_bound)
next
  show "direction (Platform_update pl) =
       (if is_moving pl \<and> \<bar>rect_x (rect (Platform_update pl)) - start_pos pl\<bar> > move_range pl
        then - direction pl else direction pl)"
    by (simp add: Platform_update_eq)
next
  show "enemy_direction (Enemy_update e) =
       (if \<bar>rect_x (rect (Enemy_update e)) - enemy_start_pos e\<bar> > patrol_range e
        then - enemy_direction e else enemy_direction e)"
    by (simp add: Enemy_update_eq)
next
  assume "k \<le> 100"
  then show "rect_x (rect ((Platform_update ^^ k) moving_platform)) = 650 + int k"
    by (simp add: moving_platform_run moving_platform_at_def)
next
  assume "k \<le> 100"
  then show "direction ((Platform_update ^^ k) moving_platform) = 1"
    by (simp add: moving_platform_run)
next
  show "rect_x (rect ((Platform_update ^^ 101) moving_platform)) = 751"
    by (simp add: moving_platform_101 moving_platform_at_def)
next
  show "direction ((Platform_update ^^ 101) moving_platform) = - 1"
    by (simp add: moving_platform_101)
next
  have "moving_platform = moving_platform_at 0"
    by (simp add: moving_platform_at_def moving_platform_def Platform_init_def)
  then show "platform_flips 101 moving_platform = 1"
    using moving_platform_flips [of 0 101] by simp
qed

text \<open>
  The first enemy of level 1 (origin 300, range 80, speed 1) after 81 updates is at 381,
  one step beyond its range, and within the amended bound.
\<close>

theorem C4_patrol_range_witness:
  "(0::int) \<le> 80 \<and> (0::int) \<le> 1
   \<and> \<bar>rect_x (rect ((Enemy_update ^^ 81) (Enemy_init 300 280 80 1))) - 300\<bar> \<le> 80 + 1
   \<and> \<bar>rect_x (rect ((Platform_update ^^ 81) (Platform_init 300 280 30 30 True 80 1))) - 300\<bar> \<le> 80 + 1
   \<and> (100::nat) \<le> 100
   \<and> rect_x (rect ((Platform_update ^^ 100) moving_platform)) = 750
   \<and> direction ((Platform_update ^^ 100) moving_platform) = 1"
proof -
  have h: "(0::int) \<le> 80 \<and> (0::int) \<le> 1" "(100::nat) \<le> 100" by simp_all
  note inst = C4_patrol_range [of 80 1 81 300 280 30 30 True _ _ 100]
  from inst h show ?thesis by simp
qed

section \<open>The horizontal wrap\<close>

lemma Player_update_player:
  "player (Player_update keys g) =
     (let p = Player_wrap (Player_motion keys (player g));
          p' = p\<lparr>rect := set_midbottom (rect p) (pos p)\<rparr>
      in if rect_top (rect p') > SCREEN_HEIGHT
         then player (Game_player_die (g\<lparr>player := p'\<rparr>)) else p')"
  by (simp add: Player_update_def Let_def)

lemma Player_update_rect:
  "rect (player (Player_update keys g))
     = set_midbottom (rect (player g)) (pos (Player_wrap (Player_motion keys (player g))))"
  by (cases "rect_top (set_midbottom (rect (player g))
        (pos (Player_wrap (Player_motion keys (player g))))) > SCREEN_HEIGHT")
     (simp_all add: Player_update_player Let_def)

lemma Player_update_alive:
  "rect_top (rect (player (Player_update keys g))) \<le> SCREEN_HEIGHT \<Longrightarrow>
   Player_update keys g =
     g\<lparr>player := (Player_wrap (Player_motion keys (player g)))
          \<lparr>rect := set_midbottom (rect (player g))
                      (pos (Player_wrap (Player_motion keys (player g))))\<rparr>\<rparr>"
  by (simp add: Player_update_rect) (simp add: Player_update_def Let_def)

lemma Player_update_dead:
  "\<not> rect_top (rect (player (Player_update keys g))) \<le> SCREEN_HEIGHT \<Longrightarrow>
   Player_update keys g =
     Game_player_die (g\<lparr>player := (Player_wrap (Player_motion keys (player g)))
          \<lparr>rect := set_midbottom (rect (player g))
                      (pos (Player_wrap (Player_motion keys (player g))))\<rparr>\<rparr>)"
  by (simp add: Player_update_rect) (simp add: Player_update_def Let_def)

lemma wrap_range:
  "0 \<le> vec_x (pos (Player_wrap p)) \<and> vec_x (pos (Player_wrap p)) \<le> real_of_int SCREEN_WIDTH"
  by (simp add: wrap_x SCREEN_WIDTH_def)

lemma Player_update_x_range:
  "0 \<le> vec_x (pos (player (Player_update keys g)))
   \<and> vec_x (pos (player (Player_update keys g))) \<le> real_of_int SCREEN_WIDTH"
  using wrap_range [of "Player_motion keys (player g)"]
  by (simp add: Player_update_player Let_def die_player SCREEN_WIDTH_def)

text \<open>
  Claim C5 as stated fails: a position of exactly \<open>SCREEN_WIDTH\<close> stays where it is, and
  so does a position of exactly 0.
\<close>

theorem C5_wrap_edges_counterexample:
  "vec_x (pos (Player_wrap (player_at 800))) = 800
   \<and> vec_x (pos (Player_wrap (player_at 800))) \<noteq> 0
   \<and> vec_x (pos (Player_wrap (player_at 0))) = 0
   \<and> vec_x (pos (Player_wrap (player_at 0))) \<noteq> real_of_int SCREEN_WIDTH"
  by (simp add: wrap_x player_at_def SCREEN_WIDTH_def)

text \<open>
  Claim C5, amended. The comparisons of the wrap are strict: a position beyond
  \<open>SCREEN_WIDTH\<close> becomes 0, a position below 0 becomes \<open>SCREEN_WIDTH\<close>, and a position
  within \<open>[0, SCREEN_WIDTH]\<close>, the two edges included, is left as it is. The wrap is
  idempotent, its result lies within \<open>[0, SCREEN_WIDTH]\<close>, and so does the player's
  horizontal position after the player's update and after the whole update of a frame.
\<close>

theorem C5_wrap:
  "(real_of_int SCREEN_WIDTH < vec_x (pos p) \<longrightarrow> vec_x (pos (Player_wrap p)) = 0)
   \<and> (vec_x (pos p) < 0 \<longrightarrow> vec_x (pos (Player_wrap p)) = real_of_int SCREEN_WIDTH)
   \<and> (0 \<le> vec_x (pos p) \<and> vec_x (pos p) \<le> real_of_int SCREEN_WIDTH \<longrightarrow> Player_wrap p = p)
   \<and> Player_wrap (Player_wrap p) = Player_wrap p
   \<and> 0 \<le> vec_x (pos (Player_wrap p))
   \<and> vec_x (pos (Player_wrap p)) \<le> real_of_int SCREEN_WIDTH
   \<and> 0 \<le> vec_x (pos (player (Player_update keys g)))
   \<and> vec_x (pos (player (Player_update keys g))) \<le> real_of_int SCREEN_WIDTH
   \<and> 0 \<le> vec_x (pos (player (Game_update keys g)))
   \<and> vec_x (pos (player (Game_update keys g))) \<le> real_of_int SCREEN_WIDTH"
proof -
  have edges: "(real_of_int SCREEN_WIDTH < vec_x (pos p) \<longrightarrow> vec_x (pos (Player_wrap p)) = 0)
     \<and> (vec_x (pos p) < 0 \<longrightarrow> vec_x (pos (Player_wrap p)) = real_of_int SCREEN_WIDTH)"
    by (simp add: wrap_x SCREEN_WIDTH_def)
  have inside: "0 \<le> vec_x (pos p) \<and> vec_x (pos p) \<le> real_of_int SCREEN_WIDTH \<longrightarrow> Player_wrap p = p"
    by (simp add: Player_wrap_def Let_def)
  have idem: "Player_wrap (Player_wrap p) = Player_wrap p"
    by (simp add: Player_wrap_def Let_def SCREEN_WIDTH_def)
  have upd: "0 \<le> vec_x (pos (player (Player_update keys g)))
     \<and> vec_x (pos (player (Player_update keys g))) \<le> real_of_int SCREEN_WIDTH"
    by (rule Player_update_x_range)
  have x_die: "vec_x (pos (player (hit_enemies h))) = vec_x (pos (player h))
      \<or> vec_x (pos (player (hit_enemies h))) = 100" for h
    by (simp add: hit_enemies_def Let_def die_player)
  have "vec_x (pos (player (Game_update keys g))) = vec_x (pos (player (Player_update keys g)))
      \<or> vec_x (pos (player (Game_update keys g))) = 100"
    using x_die [of "collect_coins (land_on_platform (all_sprites_update keys g))"]
    by (simp add: Game_update_def)
  then have game: "0 \<le> vec_x (pos (player (Game_update keys g)))
     \<and> vec_x (pos (player (Game_update keys g))) \<le> real_of_int SCREEN_WIDTH"
    using upd by (auto simp: SCREEN_WIDTH_def)
  show ?thesis using edges inside idem wrap_range [of p] upd game by simp
qed

theorem C5_wrap_witness:
  "real_of_int SCREEN_WIDTH < vec_x (pos (player_at 800.5))
   \<and> vec_x (pos (Player_wrap (player_at 800.5))) = 0
   \<and> vec_x (pos (player_at (- 0.5))) < 0
   \<and> vec_x (pos (Player_wrap (player_at (- 0.5)))) = 800
   \<and> 0 \<le> vec_x (pos (player_at 800)) \<and> vec_x (pos (player_at 800)) \<le> real_of_int SCREEN_WIDTH
   \<and> Player_wrap (player_at 800) = player_at 800"
proof -
  have h: "real_of_int SCREEN_WIDTH < vec_x (pos (player_at 800.5))"
    "vec_x (pos (player_at (- 0.5))) < 0"
    "0 \<le> vec_x (pos (player_at 800)) \<and> vec_x (pos (player_at 800)) \<le> real_of_int SCREEN_WIDTH"
    by (simp_all add: player_at_def SCREEN_WIDTH_def)
  from C5_wrap [of "player_at 800.5" no_keys level1] h(1)
  have a: "vec_x (pos (Player_wrap (player_at 800.5))) = 0" by blast
  from C5_wrap [of "player_at (- 0.5)" no_keys level1] h(2)
  have b: "vec_x (pos (Player_wrap (player_at (- 0.5)))) = real_of_int SCREEN_WIDTH" by blast
  from C5_wrap [of "player_at 800" no_keys level1] h(3)
  have c: "Player_wrap (player_at 800) = player_at 800" by blast
  show ?thesis using h a b c by (simp add: SCREEN_WIDTH_def)
qed


section \<open>The equations of motion\<close>

lemma motion_closed_form:
  "Player_motion keys p =
    (let ax0 = (if keys K_RIGHT then PLAYER_ACC else if keys K_LEFT then - PLAYER_ACC else 0);
         ax = ax0 + vec_x (vel p) * PLAYER_FRICTION;
         vx1 = vec_x (vel p) + ax;
         vx = (if \<bar>vx1\<bar> < 0.1 then 0 else vx1);
         vy = vec_y (vel p) + PLAYER_GRAVITY
     in p\<lparr>acc_v := \<lparr>vec_x = ax, vec_y = PLAYER_GRAVITY\<rparr>,
          facing_right := (if keys K_RIGHT then True else if keys K_LEFT then False else facing_right p),
          vel := \<lparr>vec_x = vx, vec_y = vy\<rparr>,
          pos := \<lparr>vec_x = vec_x (pos p) + (vx + 0.5 * ax),
                  vec_y = vec_y (pos p) + (vy + 0.5 * PLAYER_GRAVITY)\<rparr>\<rparr>)"
  by (simp add: Player_motion_def Let_def vec_add_def vec_scale_def)

lemma int_of_float_le: "0 \<le> v \<Longrightarrow> v \<le> real_of_int k \<Longrightarrow> int_of_float v \<le> k"
  by (simp add: int_of_float_def floor_le_iff) 

lemma fall_step:
  assumes "platforms g = []" "enemies g = []" "vec_x (vel (player g)) = 0"
    "0 \<le> vec_x (pos (player g))" "vec_x (pos (player g)) \<le> 800"
    "rect_h (rect (player g)) = 40"
    "0 \<le> vec_y (pos (player g)) + vec_y (vel (player g)) + 1.2"
    "vec_y (pos (player g)) + vec_y (vel (player g)) + 1.2 \<le> 640"
  shows "vel (player (Game_update no_keys g)) = \<lparr>vec_x = 0, vec_y = vec_y (vel (player g)) + 0.8\<rparr>"
    and "pos (player (Game_update no_keys g))
       = \<lparr>vec_x = vec_x (pos (player g)), vec_y = vec_y (pos (player g)) + vec_y (vel (player g)) + 1.2\<rparr>"
    and "platforms (Game_update no_keys g) = []" "enemies (Game_update no_keys g) = []"
    and "rect_h (rect (player (Game_update no_keys g))) = 40"
proof -
  let ?m = "Player_motion no_keys (player g)"
  have mv: "vel ?m = \<lparr>vec_x = 0, vec_y = vec_y (vel (player g)) + 0.8\<rparr>"
    and mp: "pos ?m = \<lparr>vec_x = vec_x (pos (player g)), vec_y = vec_y (pos (player g)) + vec_y (vel (player g)) + 1.2\<rparr>"
    using assms(3) by (simp_all add: motion_closed_form Let_def no_keys_def PLAYER_GRAVITY_def PLAYER_FRICTION_def)
  have w: "Player_wrap ?m = ?m"
    using assms(4,5) by (simp add: Player_wrap_def Let_def mp SCREEN_WIDTH_def)
  have top: "rect_top (set_midbottom (rect (player g)) (pos ?m)) \<le> SCREEN_HEIGHT"
    using assms(6) int_of_float_le [OF assms(7), of 640] assms(8)
    by (simp add: rect_top_def set_midbottom_def mp SCREEN_HEIGHT_def)
  have pu: "Player_update no_keys g = g\<lparr>player := ?m\<lparr>rect := set_midbottom (rect ?m) (pos ?m)\<rparr>\<rparr>"
    using top by (simp add: Player_update_def Let_def w)
  have asu: "all_sprites_update no_keys g = g\<lparr>player := ?m\<lparr>rect := set_midbottom (rect ?m) (pos ?m)\<rparr>\<rparr>"
    using assms(1,2) by (simp add: all_sprites_update_def Let_def pu)
  have land: "land_on_platform (all_sprites_update no_keys g) = all_sprites_update no_keys g"
    using assms(1) by (simp add: land_on_platform_def asu spritecollide_def lowest_hit_def)
  have he: "hit_enemies h = h" if "enemies h = []" for h
    using that by (simp add: hit_enemies_def spritecollide_def)
  have gu: "Game_update no_keys g = collect_coins (all_sprites_update no_keys g)"
    using assms(2) by (simp add: Game_update_def land he)
  show "vel (player (Game_update no_keys g)) = \<lparr>vec_x = 0, vec_y = vec_y (vel (player g)) + 0.8\<rparr>"
    by (simp add: gu asu mv)
  show "pos (player (Game_update no_keys g))
       = \<lparr>vec_x = vec_x (pos (player g)), vec_y = vec_y (pos (player g)) + vec_y (vel (player g)) + 1.2\<rparr>"
    by (simp add: gu asu mp)
  show "platforms (Game_update no_keys g) = []" "enemies (Game_update no_keys g) = []"
    using assms(1,2) by (simp_all add: gu asu)
  show "rect_h (rect (player (Game_update no_keys g))) = 40"
    using assms(6) by (simp add: gu asu set_midbottom_def)
qed

lemma free_fall_run:
  "n \<le> 10 \<Longrightarrow>
     vel (player ((Game_update no_keys ^^ n) free_fall)) = \<lparr>vec_x = 0, vec_y = 0.8 * real n\<rparr>
   \<and> pos (player ((Game_update no_keys ^^ n) free_fall)) = \<lparr>vec_x = 100, vec_y = 400 + 0.4 * real n * (real n + 2)\<rparr>
   \<and> platforms ((Game_update no_keys ^^ n) free_fall) = []
   \<and> enemies ((Game_update no_keys ^^ n) free_fall) = []
   \<and> rect_h (rect (player ((Game_update no_keys ^^ n) free_fall))) = 40"
proof (induction n)
  case 0
  show ?case
    by (simp add: free_fall_def level1_def Game_new_game_def Game_create_level_def Let_def Player_init_def SCREEN_HEIGHT_def)
next
  case (Suc n)
  let ?g = "(Game_update no_keys ^^ n) free_fall"
  from Suc have ih: "vel (player ?g) = \<lparr>vec_x = 0, vec_y = 0.8 * real n\<rparr>"
    "pos (player ?g) = \<lparr>vec_x = 100, vec_y = 400 + 0.4 * real n * (real n + 2)\<rparr>"
    "platforms ?g = []" "enemies ?g = []" "rect_h (rect (player ?g)) = 40"
    by simp_all
  from Suc.prems have n: "real n \<le> 9" "0 \<le> real n" by simp_all
  then have "real n * real n \<le> 9 * 9" by (intro mult_mono) simp_all
  moreover have "vec_y (pos (player ?g)) + vec_y (vel (player ?g)) + 1.2
      = 401.2 + 1.6 * real n + 0.4 * (real n * real n)"
    by (simp add: ih field_simps)
  ultimately have hi: "vec_y (pos (player ?g)) + vec_y (vel (player ?g)) + 1.2 \<le> 640"
    using n by linarith
  have lo: "0 \<le> vec_y (pos (player ?g)) + vec_y (vel (player ?g)) + 1.2"
    using n by (simp add: ih)
  note st = fall_step [of ?g, OF ih(3) ih(4) _ _ _ ih(5) lo hi]
  have side: "vec_x (vel (player ?g)) = 0" "0 \<le> vec_x (pos (player ?g))" "vec_x (pos (player ?g)) \<le> 800"
    by (simp_all add: ih)
  show ?case using st [OF side]
    by (simp add: ih field_simps)
qed

text \<open>
  Claim C7. The motion step of \<open>Player.update\<close> (lines 97 to 115) computes: the
  acceleration (0, gravity); its x component is minus the acceleration constant when left
  is held and plus the constant when right is held, right overriding left; the friction
  term \<open>vel.x * friction\<close> is added to it; the velocity grows by the acceleration; a
  horizontal velocity of absolute value below 0.1 becomes 0; the position grows by the
  velocity plus half the acceleration. The resulting velocity and position are these
  closed forms for every player and every set of held keys. The whole update of the player
  keeps this velocity and vertical position, and wraps the horizontal position, unless
  the player falls off the screen. A player at rest with nothing below it falls: over
  its first 10 updates the vertical velocity and the vertical position strictly increase,
  and the ground probe never succeeds.
\<close>

theorem C7_motion:
  "Player_motion keys p =
    (let ax0 = (if keys K_RIGHT then PLAYER_ACC else if keys K_LEFT then - PLAYER_ACC else 0);
         ax = ax0 + vec_x (vel p) * PLAYER_FRICTION;
         vx1 = vec_x (vel p) + ax;
         vx = (if \<bar>vx1\<bar> < 0.1 then 0 else vx1);
         vy = vec_y (vel p) + PLAYER_GRAVITY
     in p\<lparr>acc_v := \<lparr>vec_x = ax, vec_y = PLAYER_GRAVITY\<rparr>,
          facing_right := (if keys K_RIGHT then True else if keys K_LEFT then False else facing_right p),
          vel := \<lparr>vec_x = vx, vec_y = vy\<rparr>,
          pos := \<lparr>vec_x = vec_x (pos p) + (vx + 0.5 * ax),
                  vec_y = vec_y (pos p) + (vy + 0.5 * PLAYER_GRAVITY)\<rparr>\<rparr>)
   \<and> (rect_top (rect (player (Player_update keys g))) \<le> SCREEN_HEIGHT \<longrightarrow>
        vel (player (Player_update keys g)) = vel (Player_motion keys (player g))
      \<and> vec_y (pos (player (Player_update keys g))) = vec_y (pos (Player_motion keys (player g)))
      \<and> pos (player (Player_update keys g)) = pos (Player_wrap (Player_motion keys (player g))))
   \<and> (n < 10 \<longrightarrow>
        vec_y (vel (player ((Game_update no_keys ^^ n) free_fall)))
          < vec_y (vel (player ((Game_update no_keys ^^ Suc n) free_fall)))
      \<and> vec_y (pos (player ((Game_update no_keys ^^ n) free_fall)))
          < vec_y (pos (player ((Game_update no_keys ^^ Suc n) free_fall)))
      \<and> \<not> ground_probe ((Game_update no_keys ^^ n) free_fall))"
proof (intro conjI impI)
  show "Player_motion keys p =
    (let ax0 = (if keys K_RIGHT then PLAYER_ACC else if keys K_LEFT then - PLAYER_ACC else 0);
         ax = ax0 + vec_x (vel p) * PLAYER_FRICTION;
         vx1 = vec_x (vel p) + ax;
         vx = (if \<bar>vx1\<bar> < 0.1 then 0 else vx1);
         vy = vec_y (vel p) + PLAYER_GRAVITY
     in p\<lparr>acc_v := \<lparr>vec_x = ax, vec_y = PLAYER_GRAVITY\<rparr>,
          facing_right := (if keys K_RIGHT then True else if keys K_LEFT then False else facing_right p),
          vel := \<lparr>vec_x = vx, vec_y = vy\<rparr>,
          pos := \<lparr>vec_x = vec_x (pos p) + (vx + 0.5 * ax),
                  vec_y = vec_y (pos p) + (vy + 0.5 * PLAYER_GRAVITY)\<rparr>\<rparr>)"
    by (rule motion_closed_form)
next
  assume top: "rect_top (rect (player (Player_update keys g))) \<le> SCREEN_HEIGHT"
  let ?p = "Player_wrap (Player_motion keys (player g))"
  have alive: "player (Player_update keys g) = ?p\<lparr>rect := set_midbottom (rect (player g)) (pos ?p)\<rparr>"
    by (simp add: Player_update_alive [OF top])
  show "vel (player (Player_update keys g)) = vel (Player_motion keys (player g))"
    by (simp add: alive)
  show "vec_y (pos (player (Player_update keys g))) = vec_y (pos (Player_motion keys (player g)))"
    by (simp add: alive)
  show "pos (player (Player_update keys g)) = pos (Player_wrap (Player_motion keys (player g)))"
    by (simp add: alive)
next
  assume n: "n < 10"
  then have a: "n \<le> 10" and b: "Suc n \<le> 10" by simp_all
  note now = free_fall_run [OF a] and then' = free_fall_run [OF b]
  show "vec_y (vel (player ((Game_update no_keys ^^ n) free_fall)))
          < vec_y (vel (player ((Game_update no_keys ^^ Suc n) free_fall)))"
    using now then' by simp
  have pn: "vec_y (pos (player ((Game_update no_keys ^^ n) free_fall)))
      = 400 + 0.4 * real n * (real n + 2)"
    using now by simp
  have ps: "vec_y (pos (player ((Game_update no_keys ^^ Suc n) free_fall)))
      = 400 + 0.4 * real (Suc n) * (real (Suc n) + 2)"
    using then' by simp
  have "0.4 * real (Suc n) * (real (Suc n) + 2) - 0.4 * real n * (real n + 2)
      = 0.4 * (2 * real n + 3)"
    by (simp add: field_simps)
  moreover have "0 < 0.4 * (2 * real n + 3)" by simp
  ultimately have "0.4 * real n * (real n + 2) < 0.4 * real (Suc n) * (real (Suc n) + 2)"
    by linarith
  then show "vec_y (pos (player ((Game_update no_keys ^^ n) free_fall)))
          < vec_y (pos (player ((Game_update no_keys ^^ Suc n) free_fall)))"
    by (simp only: pn ps add_strict_left_mono)
  show "\<not> ground_probe ((Game_update no_keys ^^ n) free_fall)"
    using now by (simp add: ground_probe_def)
qed

text \<open>
  In the first frame of level 1 the player stays on the screen and its update gives
  velocity (0, 0.8) and position (100, 401.2). After three updates of the free fall
  the vertical velocity is 2.4 and the height 406, after four 3.2 and 409.6.
\<close>

theorem C7_motion_witness:
  "rect_top (rect (player (Player_update no_keys level1))) \<le> SCREEN_HEIGHT
   \<and> vel (player (Player_update no_keys level1)) = \<lparr>vec_x = 0, vec_y = 0.8\<rparr>
   \<and> pos (player (Player_update no_keys level1)) = \<lparr>vec_x = 100, vec_y = 401.2\<rparr>
   \<and> (3::nat) < 10
   \<and> vec_y (vel (player ((Game_update no_keys ^^ 3) free_fall)))
        < vec_y (vel (player ((Game_update no_keys ^^ Suc 3) free_fall)))
   \<and> vec_y (pos (player ((Game_update no_keys ^^ 3) free_fall)))
        < vec_y (pos (player ((Game_update no_keys ^^ Suc 3) free_fall)))
   \<and> \<not> ground_probe ((Game_update no_keys ^^ 3) free_fall)"
proof -
  have h: "rect_top (rect (player (Player_update no_keys level1))) \<le> SCREEN_HEIGHT"
    by code_simp
  have m: "vel (Player_motion no_keys (player level1)) = \<lparr>vec_x = 0, vec_y = 0.8\<rparr>"
    "pos (Player_wrap (Player_motion no_keys (player level1))) = \<lparr>vec_x = 100, vec_y = 401.2\<rparr>"
    by code_simp+
  note inst = C7_motion [of no_keys "player level1" level1 3]
  from inst h have "vel (player (Player_update no_keys level1)) = vel (Player_motion no_keys (player level1))"
    "pos (player (Player_update no_keys level1)) = pos (Player_wrap (Player_motion no_keys (player level1)))"
    by blast+
  with m have a: "vel (player (Player_update no_keys level1)) = \<lparr>vec_x = 0, vec_y = 0.8\<rparr>"
    "pos (player (Player_update no_keys level1)) = \<lparr>vec_x = 100, vec_y = 401.2\<rparr>"
    by simp_all
  have k: "(3::nat) < 10" by simp
  from inst k have b: "vec_y (vel (player ((Game_update no_keys ^^ 3) free_fall)))
        < vec_y (vel (player ((Game_update no_keys ^^ Suc 3) free_fall)))"
    "vec_y (pos (player ((Game_update no_keys ^^ 3) free_fall)))
        < vec_y (pos (player ((Game_update no_keys ^^ Suc 3) free_fall)))"
    "\<not> ground_probe ((Game_update no_keys ^^ 3) free_fall)"
    by blast+
  show ?thesis using h a k b by (intro conjI)
qed


section \<open>The update of a frame\<close>

lemma spritecollide_rect:
  "rect s = rect s' \<Longrightarrow> spritecollide s grp = spritecollide s' grp"
  by (simp add: spritecollide_def)

lemma group_after_kill_rect:
  "rect s = rect s' \<Longrightarrow> group_after_kill s grp = group_after_kill s' grp"
  by (simp add: group_after_kill_def)

lemma Player_update_lives:
  "lives (player (Player_update keys g)) = lives (player g) - (if fell_off keys g then 1 else 0)"
proof (cases "fell_off keys g")
  case True
  then have "\<not> rect_top (rect (player (Player_update keys g))) \<le> SCREEN_HEIGHT"
    by (simp add: fell_off_def)
  from Player_update_dead [OF this] True show ?thesis by simp
next
  case False
  then have "rect_top (rect (player (Player_update keys g))) \<le> SCREEN_HEIGHT"
    by (simp add: fell_off_def)
  from Player_update_alive [OF this] False show ?thesis by simp
qed

lemma Player_update_state:
  "game_state (Player_update keys g) =
     (if fell_off keys g \<and> lives (player g) - 1 \<le> 0 then GAME_OVER else game_state g)"
proof (cases "fell_off keys g")
  case True
  then have "\<not> rect_top (rect (player (Player_update keys g))) \<le> SCREEN_HEIGHT"
    by (simp add: fell_off_def)
  from Player_update_dead [OF this] True show ?thesis by (simp add: die_state)
next
  case False
  then have "rect_top (rect (player (Player_update keys g))) \<le> SCREEN_HEIGHT"
    by (simp add: fell_off_def)
  from Player_update_alive [OF this] False show ?thesis by simp
qed

lemma hit_enemies_eq:
  "hit_enemies h = (if spritecollide (player h) (enemies h) \<noteq> [] then Game_player_die h else h)"
  by (simp add: hit_enemies_def Let_def)

lemma Game_update_unfold:
  "Game_update keys g =
     (if enemy_hit keys g
      then Game_player_die (collect_coins (land_on_platform (all_sprites_update keys g)))
      else collect_coins (land_on_platform (all_sprites_update keys g)))"
proof -
  let ?h = "collect_coins (land_on_platform (all_sprites_update keys g))"
  have "rect (player ?h) = rect (player (Player_update keys g))" by simp
  then have "spritecollide (player ?h) (enemies ?h)
      = spritecollide (player (Player_update keys g)) (enemies ?h)"
    by (rule spritecollide_rect)
  moreover have "enemies ?h = map Enemy_update (enemies g)" by simp
  ultimately have "spritecollide (player ?h) (enemies ?h) \<noteq> [] \<longleftrightarrow> enemy_hit keys g"
    by (simp only: enemy_hit_def)
  then show ?thesis
    by (simp only: Game_update_def hit_enemies_eq)
qed

lemma collect_land_hits:
  "spritecollide (player (land_on_platform (all_sprites_update keys g))) (coins g) = coin_hits keys g"
  "group_after_kill (player (land_on_platform (all_sprites_update keys g))) (coins g) = coins_left keys g"
proof -
  have r: "rect (player (land_on_platform (all_sprites_update keys g))) = rect (player (Player_update keys g))"
    by simp
  show "spritecollide (player (land_on_platform (all_sprites_update keys g))) (coins g) = coin_hits keys g"
    unfolding coin_hits_def using r by (rule spritecollide_rect)
  show "group_after_kill (player (land_on_platform (all_sprites_update keys g))) (coins g) = coins_left keys g"
    unfolding coins_left_def using r by (rule group_after_kill_rect)
qed

lemma Game_update_lives:
  "lives (player (Game_update keys g)) =
     lives (player g) - (if fell_off keys g then 1 else 0) - (if enemy_hit keys g then 1 else 0)"
  by (simp add: Game_update_unfold Player_update_lives)

lemma Game_update_coins: "coins (Game_update keys g) = coins_left keys g"
  by (simp add: Game_update_unfold collect_land_hits)

lemma Game_update_score:
  "score (Game_update keys g) = score g + 10 * int (length (coin_hits keys g))"
  by (simp add: Game_update_unfold collect_score collect_land_hits)

lemma Game_update_state:
  "game_state (Game_update keys g) =
     (if enemy_hit keys g \<and> lives (player g) - (if fell_off keys g then 1 else 0) - 1 \<le> 0
      then GAME_OVER
      else if coin_hits keys g \<noteq> [] \<and> coins_left keys g = [] then WIN
      else if fell_off keys g \<and> lives (player g) - 1 \<le> 0 then GAME_OVER
      else game_state g)"
  by (simp add: Game_update_unfold die_state collect_state collect_land_hits
      Player_update_lives Player_update_state)

lemma Game_update_keeps [simp]:
  "level (Game_update keys g) = level g"
  "running (Game_update keys g) = running g"
  "enemies (Game_update keys g) = map Enemy_update (enemies g)"
  "platforms (Game_update keys g) = map Platform_update (platforms g)"
  "rect_h (rect (player (Game_update keys g))) = rect_h (rect (player g))"
  by (simp_all add: Game_update_def)

lemma off_screen_no_collision:
  "rect_top a > SCREEN_HEIGHT \<Longrightarrow> rect_h a = 40 \<Longrightarrow> on_screen b \<Longrightarrow> \<not> colliderect a b"
  by (auto simp: colliderect_def on_screen_def rect_top_def)

lemma fell_off_no_enemy:
  assumes "fell_off keys g" "rect_h (rect (player g)) = 40"
    "list_all (\<lambda>e. on_screen (rect e)) (enemies g)"
  shows "\<not> enemy_hit keys g"
proof -
  have "\<not> colliderect (rect (player (Player_update keys g))) (rect (Enemy_update e))"
    if "e \<in> set (enemies g)" for e
  proof -
    from that assms(3) have "on_screen (rect e)" by (simp add: list_all_iff)
    then have "on_screen (rect (Enemy_update e))" by (simp add: on_screen_def)
    with assms(1,2) show ?thesis
      by (intro off_screen_no_collision) (simp_all add: fell_off_def)
  qed
  then show ?thesis by (auto simp: enemy_hit_def spritecollide_nonempty)
qed

lemma fell_off_no_coin:
  assumes "fell_off keys g" "rect_h (rect (player g)) = 40"
    "list_all (\<lambda>c. on_screen (rect c)) (coins g)"
  shows "coin_hits keys g = []"
proof -
  have "\<not> colliderect (rect (player (Player_update keys g))) (rect c)"
    if "c \<in> set (coins g)" for c
  proof -
    from that assms(3) have "on_screen (rect c)" by (simp add: list_all_iff)
    with assms(1,2) show ?thesis
      by (intro off_screen_no_collision) (simp_all add: fell_off_def)
  qed
  then show ?thesis using spritecollide_nonempty [of "player (Player_update keys g)" "coins g"]
    by (auto simp: coin_hits_def)
qed

lemma hits_and_left:
  "length (coin_hits keys g) + length (coins_left keys g) = length (coins g)"
  unfolding coin_hits_def coins_left_def spritecollide_def group_after_kill_def
  by (rule sum_length_filter_compl)


section \<open>The invariant of the game loop\<close>

lemma game_inv_init: "game_inv Game_init"
  by (simp add: game_inv_def Game_init_def Player_init_def)

lemma game_inv_new_game: "level g = 1 \<Longrightarrow> game_inv (Game_new_game g)"
  by (simp add: game_inv_def Game_new_game_def Game_create_level_def Let_def Player_init_def
      enemy_list_def coin_list_def Enemy_init_def Coin_init_def on_screen_def SCREEN_HEIGHT_def)

lemma game_inv_jump: "game_inv g \<Longrightarrow> game_inv (Player_jump g)"
  by (simp add: game_inv_def Player_jump_eq)

lemma game_inv_event: "game_inv g \<Longrightarrow> game_inv (handle_event ev g)"
proof (cases ev)
  case QUIT
  assume "game_inv g"
  with QUIT show ?thesis by (simp add: handle_event_def game_inv_def)
next
  case OTHER_EVENT
  assume "game_inv g"
  with OTHER_EVENT show ?thesis by (simp add: handle_event_def game_inv_def)
next
  case (KEYDOWN k)
  assume inv: "game_inv g"
  define g2 where "g2 = (if k = K_ESCAPE then g\<lparr>running := False\<rparr> else g)"
  have inv2: "game_inv g2" using inv by (simp add: g2_def game_inv_def)
  have eq: "handle_event ev g =
      (if game_state g2 = PLAYING
       then (if k = K_SPACE \<or> k = K_UP then Player_jump g2 else g2)
       else if game_state g2 = MENU
       then (if k = K_RETURN then Game_new_game g2 else g2)
       else if game_state g2 = GAME_OVER \<or> game_state g2 = WIN
       then (if k = K_RETURN then g2\<lparr>game_state := MENU\<rparr> else g2)
       else g2)"
    using KEYDOWN by (simp add: handle_event_def Let_def g2_def)
  have lvl: "level g2 = 1" using inv2 by (simp add: game_inv_def)
  have menu: "game_inv (g2\<lparr>game_state := MENU\<rparr>)" using inv2 by (simp add: game_inv_def)
  show ?thesis
    unfolding eq using inv2 game_inv_jump [OF inv2] game_inv_new_game [OF lvl] menu
    by simp
qed

lemma game_inv_events: "game_inv g \<Longrightarrow> game_inv (Game_events evs g)"
  by (induction evs arbitrary: g) (simp_all add: game_inv_event)

lemma game_inv_update:
  assumes inv: "game_inv g" and playing: "game_state g = PLAYING"
  shows "game_inv (Game_update keys g)"
proof -
  from inv have lv: "1 \<le> lives (player g)" and h: "rect_h (rect (player g)) = 40"
    and en: "list_all (\<lambda>e. on_screen (rect e)) (enemies g)"
    and co: "list_all (\<lambda>c. on_screen (rect c)) (coins g)"
    and sc: "score g + 10 * int (length (coins g)) = 10 * int (length (coin_list (level g)))"
    and lvl: "level g = 1"
    using playing by (simp_all add: game_inv_def)
  have once: "\<not> (fell_off keys g \<and> enemy_hit keys g)"
    using fell_off_no_enemy [OF _ h en] by blast
  have l0: "0 \<le> lives (player (Game_update keys g))"
    using lv once by (auto simp: Game_update_lives)
  have l1: "game_state (Game_update keys g) = PLAYING \<longrightarrow> 1 \<le> lives (player (Game_update keys g))"
    using lv once by (auto simp: Game_update_lives Game_update_state split: if_splits)
  have w: "game_state (Game_update keys g) = WIN \<longrightarrow> coins (Game_update keys g) = []"
    using playing by (auto simp: Game_update_state Game_update_coins split: if_splits)
  have s: "score (Game_update keys g) + 10 * int (length (coins (Game_update keys g)))
      = 10 * int (length (coin_list (level (Game_update keys g))))"
    using sc hits_and_left [of keys g] by (simp add: Game_update_score Game_update_coins)
  have e: "list_all (\<lambda>e. on_screen (rect e)) (enemies (Game_update keys g))"
    using en by (simp add: list_all_iff on_screen_def)
  have c: "list_all (\<lambda>c. on_screen (rect c)) (coins (Game_update keys g))"
    using co by (simp add: Game_update_coins coins_left_def group_after_kill_def list_all_iff)
  show ?thesis
    unfolding game_inv_def using lvl l0 l1 w s h e c by simp
qed

lemma game_inv_frame: "game_inv g \<Longrightarrow> game_inv (frame inp g)"
  by (simp add: frame_def Let_def game_inv_events game_inv_update)

lemma game_inv_run: "game_inv g \<Longrightarrow> game_inv (Game_run inps g)"
  by (induction inps arbitrary: g) (simp_all add: game_inv_frame)

section \<open>Score and coins\<close>

lemma event_keeps_score:
  "game_state g = PLAYING \<Longrightarrow>
     score (handle_event ev g) = score g \<and> coins (handle_event ev g) = coins g"
  by (cases ev) (simp_all add: handle_event_def Let_def Player_jump_eq)

text \<open>
  Claim C8. An update adds to the score exactly 10 for each coin the player's rect
  collides with, so the score never decreases; exactly these coins leave the group and
  the others stay, so a coin that was collected is not in the group any more and cannot
  be collected again. Events in state \<open>PLAYING\<close> change neither the score nor the coins.
  In every state the game loop reaches outside the menu, the score plus 10 for each coin
  left is 10 times the number of coins of the level, which is 5 for level 1: when no coin
  is left the score is 50.
\<close>

theorem C8_score_and_coins:
  "score (Game_update keys g) = score g + 10 * int (length (coin_hits keys g))
   \<and> score g \<le> score (Game_update keys g)
   \<and> coins (Game_update keys g) = coins_left keys g
   \<and> length (coin_hits keys g) + length (coins (Game_update keys g)) = length (coins g)
   \<and> (\<forall>c \<in> set (coins g).
         (c \<in> set (coin_hits keys g)
            \<longleftrightarrow> colliderect (rect (player (Player_update keys g))) (rect c))
       \<and> (c \<in> set (coins (Game_update keys g))
            \<longleftrightarrow> \<not> colliderect (rect (player (Player_update keys g))) (rect c)))
   \<and> set (coins (Game_update keys g)) \<subseteq> set (coins g)
   \<and> set (coin_hits keys g) \<inter> set (coins (Game_update keys g)) = {}
   \<and> (game_state g = PLAYING \<longrightarrow>
         score (handle_event ev g) = score g \<and> coins (handle_event ev g) = coins g)
   \<and> (game_state (Game_run inps Game_init) \<noteq> MENU \<longrightarrow>
         score (Game_run inps Game_init) + 10 * int (length (coins (Game_run inps Game_init)))
           = 10 * int (length (coin_list 1)))
   \<and> length (coin_list 1) = 5
   \<and> (game_state (Game_run inps Game_init) \<noteq> MENU \<and> coins (Game_run inps Game_init) = [] \<longrightarrow>
         score (Game_run inps Game_init) = 50)"
proof -
  have inv: "game_inv (Game_run inps Game_init)"
    by (rule game_inv_run [OF game_inv_init])
  have five: "length (coin_list 1) = 5" by (simp add: coin_list_def)
  have total: "game_state (Game_run inps Game_init) \<noteq> MENU \<longrightarrow>
         score (Game_run inps Game_init) + 10 * int (length (coins (Game_run inps Game_init)))
           = 10 * int (length (coin_list 1))"
    using inv by (simp add: game_inv_def)
  then have all: "game_state (Game_run inps Game_init) \<noteq> MENU \<and> coins (Game_run inps Game_init) = [] \<longrightarrow>
         score (Game_run inps Game_init) = 50"
    by (auto simp: five)
  have each: "\<forall>c \<in> set (coins g).
         (c \<in> set (coin_hits keys g)
            \<longleftrightarrow> colliderect (rect (player (Player_update keys g))) (rect c))
       \<and> (c \<in> set (coins (Game_update keys g))
            \<longleftrightarrow> \<not> colliderect (rect (player (Player_update keys g))) (rect c))"
    by (simp add: Game_update_coins coin_hits_def coins_left_def spritecollide_def group_after_kill_def)
  have sub: "set (coins (Game_update keys g)) \<subseteq> set (coins g)"
    by (simp add: Game_update_coins coins_left_def group_after_kill_def)
  have apart: "set (coin_hits keys g) \<inter> set (coins (Game_update keys g)) = {}"
    by (auto simp: Game_update_coins coin_hits_def coins_left_def spritecollide_def group_after_kill_def)
  have count: "length (coin_hits keys g) + length (coins (Game_update keys g)) = length (coins g)"
    by (simp add: Game_update_coins hits_and_left)
  have up: "score g \<le> score (Game_update keys g)"
    by (simp add: Game_update_score)
  have ev: "game_state g = PLAYING \<longrightarrow>
         score (handle_event ev g) = score g \<and> coins (handle_event ev g) = coins g"
    using event_keeps_score [of g ev] by blast
  show ?thesis
    using Game_update_score [of keys g] up Game_update_coins [of keys g] count each sub apart
      ev total five all
    by (intro conjI)
qed

text \<open>
  When the player reaches the last coin of level 1 the score goes from 40 to 50 and no
  coin is left; a jump request before that changes neither. After the start key and one
  frame the score is 0 and the five coins are there.
\<close>

theorem C8_score_and_coins_witness:
  "Coin_init 330 270 \<in> set (coins last_coin)
   \<and> colliderect (rect (player (Player_update hold_right last_coin))) (rect (Coin_init 330 270))
   \<and> Coin_init 330 270 \<in> set (coin_hits hold_right last_coin)
   \<and> Coin_init 330 270 \<notin> set (coins (Game_update hold_right last_coin))
   \<and> score last_coin = 40 \<and> score (Game_update hold_right last_coin) = 50
   \<and> game_state last_coin = PLAYING
   \<and> score (handle_event (KEYDOWN K_SPACE) last_coin) = 40
   \<and> game_state (Game_run [([KEYDOWN K_RETURN], no_keys)] Game_init) \<noteq> MENU
   \<and> score (Game_run [([KEYDOWN K_RETURN], no_keys)] Game_init)
        + 10 * int (length (coins (Game_run [([KEYDOWN K_RETURN], no_keys)] Game_init))) = 50"
proof -
  have h: "Coin_init 330 270 \<in> set (coins last_coin)"
    "colliderect (rect (player (Player_update hold_right last_coin))) (rect (Coin_init 330 270))"
    "score last_coin = 40" "game_state last_coin = PLAYING"
    "length (coin_hits hold_right last_coin) = 1"
    "game_state (Game_run [([KEYDOWN K_RETURN], no_keys)] Game_init) \<noteq> MENU"
    by code_simp+
  note inst = C8_score_and_coins [of hold_right last_coin "KEYDOWN K_SPACE"
      "[([KEYDOWN K_RETURN], no_keys)]"]
  from inst h(1,2) have a: "Coin_init 330 270 \<in> set (coin_hits hold_right last_coin)"
    "Coin_init 330 270 \<notin> set (coins (Game_update hold_right last_coin))"
    by blast+
  from inst h(3,5) have b: "score (Game_update hold_right last_coin) = 50"
    by simp
  from inst h(3,4) have c: "score (handle_event (KEYDOWN K_SPACE) last_coin) = 40"
    by simp
  from inst h(6) have d: "score (Game_run [([KEYDOWN K_RETURN], no_keys)] Game_init)
        + 10 * int (length (coins (Game_run [([KEYDOWN K_RETURN], no_keys)] Game_init))) = 50"
    by simp
  show ?thesis using h(1,2,3,4,6) a b c d by (intro conjI)
qed

section \<open>Winning\<close>

lemma last_coin_inv: "game_inv last_coin"
  by code_simp

lemma win_has_no_coins:
  "game_state (Game_run inps Game_init) = WIN \<Longrightarrow> coins (Game_run inps Game_init) = []"
  using game_inv_run [OF game_inv_init, of inps] by (simp add: game_inv_def)

lemma win_exactly:
  "game_state g = PLAYING \<Longrightarrow>
   game_state (Game_update keys g) = WIN \<longleftrightarrow>
     coin_hits keys g \<noteq> [] \<and> coins_left keys g = []
     \<and> \<not> (enemy_hit keys g \<and> lives (player g) - (if fell_off keys g then 1 else 0) - 1 \<le> 0)"
  by (simp add: Game_update_state)

text \<open>
  Claim C3, at the input where the code departs from it. In state \<open>last_coin\<close> the game
  is playing and one coin is left, which the player's rect does not touch yet, nor does
  it touch an enemy. In the update with the right key held the player reaches the coin:
  the coin is collected, the coin group is empty and the score is 50. In the same update
  the player's rect collides with the first enemy and the last life is lost: the state
  after the update is \<open>GAME_OVER\<close>, not \<open>WIN\<close>.
\<close>

theorem C3_win_overridden_by_game_over:
  "game_state last_coin = PLAYING
   \<and> coins last_coin = [Coin_init 330 270]
   \<and> lives (player last_coin) = 1
   \<and> spritecollide (player last_coin) (coins last_coin) = []
   \<and> spritecollide (player last_coin) (enemies last_coin) = []
   \<and> coin_hits hold_right last_coin = [Coin_init 330 270]
   \<and> coins (Game_update hold_right last_coin) = []
   \<and> score (Game_update hold_right last_coin) = 50
   \<and> game_state (collect_coins (land_on_platform (all_sprites_update hold_right last_coin))) = WIN
   \<and> enemy_hit hold_right last_coin
   \<and> lives (player (Game_update hold_right last_coin)) = 0
   \<and> game_state (Game_update hold_right last_coin) = GAME_OVER
   \<and> game_state (Game_update hold_right last_coin) \<noteq> WIN"
  by code_simp

section \<open>Lives and game over\<close>

lemma event_no_game_over:
  "game_state (handle_event ev g) = GAME_OVER \<Longrightarrow> game_state g = GAME_OVER"
proof (cases ev)
  case (KEYDOWN k)
  assume "game_state (handle_event ev g) = GAME_OVER"
  with KEYDOWN show ?thesis
    by (simp add: handle_event_def Let_def Player_jump_eq Game_new_game_def Game_create_level_def
        split: if_splits)
qed (simp_all add: handle_event_def)

lemma one_death_per_update:
  assumes inv: "game_inv g" and playing: "game_state g = PLAYING"
  shows "\<not> (fell_off keys g \<and> enemy_hit keys g)"
    and "lives (player (Game_update keys g))
           = lives (player g) - (if fell_off keys g \<or> enemy_hit keys g then 1 else 0)"
    and "game_state (Game_update keys g) = GAME_OVER
           \<longleftrightarrow> lives (player g) = 1 \<and> lives (player (Game_update keys g)) = 0"
proof -
  from inv playing have lv: "1 \<le> lives (player g)" and h: "rect_h (rect (player g)) = 40"
    and en: "list_all (\<lambda>e. on_screen (rect e)) (enemies g)"
    and co: "list_all (\<lambda>c. on_screen (rect c)) (coins g)"
    by (simp_all add: game_inv_def)
  show once: "\<not> (fell_off keys g \<and> enemy_hit keys g)"
    using fell_off_no_enemy [OF _ h en] by blast
  show lives: "lives (player (Game_update keys g))
           = lives (player g) - (if fell_off keys g \<or> enemy_hit keys g then 1 else 0)"
    using once by (auto simp: Game_update_lives)
  have dry: "fell_off keys g \<Longrightarrow> coin_hits keys g = []"
    using fell_off_no_coin [OF _ h co] by blast
  show "game_state (Game_update keys g) = GAME_OVER
           \<longleftrightarrow> lives (player g) = 1 \<and> lives (player (Game_update keys g)) = 0"
  proof (cases "fell_off keys g")
    case True
    with once have "\<not> enemy_hit keys g" by simp
    with True dry lv playing show ?thesis
      by (auto simp: Game_update_state Game_update_lives)
  next
    case False
    with lv playing show ?thesis
      by (auto simp: Game_update_state Game_update_lives)
  qed
qed

text \<open>
  Claim C2. The death procedure plays the death sound, takes one life, and then sets the
  state \<open>GAME_OVER\<close> when no life is left and otherwise puts the player back at the start.
  In every state the game loop reaches, at the end of a frame or after the events of a
  frame, the lives are not negative. When such a state is \<open>PLAYING\<close>, its update ends in
  \<open>GAME_OVER\<close> exactly when the lives go from 1 to 0 in it; the two death triggers of an
  update, the fall below the screen and the collision with an enemy, never fire together,
  because every enemy lies above the bottom edge of the screen, so that an update takes
  at most one life. No event leads to \<open>GAME_OVER\<close>.
\<close>

theorem C2_lives_and_game_over:
  "Game_player_die h =
     (let h1 = h\<lparr>played := played h @ [Death_sound],
                 player := (player h)\<lparr>lives := lives (player h) - 1\<rparr>\<rparr>
      in if lives (player h) - 1 \<le> 0 then h1\<lparr>game_state := GAME_OVER\<rparr>
         else h1\<lparr>player := (player h1)
                   \<lparr>pos := \<lparr>vec_x = 100, vec_y = real_of_int (SCREEN_HEIGHT - 200)\<rparr>,
                     vel := \<lparr>vec_x = 0, vec_y = 0\<rparr>\<rparr>\<rparr>)
   \<and> 0 \<le> lives (player (Game_run inps Game_init))
   \<and> 0 \<le> lives (player (Game_events evs (Game_run inps Game_init)))
   \<and> (game_state (Game_events evs (Game_run inps Game_init)) = PLAYING \<longrightarrow>
        (let g = Game_events evs (Game_run inps Game_init)
         in 0 \<le> lives (player (Game_update keys g))
          \<and> (game_state (Game_update keys g) = GAME_OVER
                \<longleftrightarrow> lives (player g) = 1 \<and> lives (player (Game_update keys g)) = 0)
          \<and> \<not> (fell_off keys g \<and> enemy_hit keys g)
          \<and> lives (player (Game_update keys g))
               = lives (player g) - (if fell_off keys g \<or> enemy_hit keys g then 1 else 0)))
   \<and> (game_inv g \<and> game_state g = PLAYING \<longrightarrow>
          0 \<le> lives (player (Game_update keys g))
        \<and> (game_state (Game_update keys g) = GAME_OVER
              \<longleftrightarrow> lives (player g) = 1 \<and> lives (player (Game_update keys g)) = 0)
        \<and> \<not> (fell_off keys g \<and> enemy_hit keys g))
   \<and> (game_state (handle_event ev h) = GAME_OVER \<longrightarrow> game_state h = GAME_OVER)"
proof -
  have die: "Game_player_die h =
     (let h1 = h\<lparr>played := played h @ [Death_sound],
                 player := (player h)\<lparr>lives := lives (player h) - 1\<rparr>\<rparr>
      in if lives (player h) - 1 \<le> 0 then h1\<lparr>game_state := GAME_OVER\<rparr>
         else h1\<lparr>player := (player h1)
                   \<lparr>pos := \<lparr>vec_x = 100, vec_y = real_of_int (SCREEN_HEIGHT - 200)\<rparr>,
                     vel := \<lparr>vec_x = 0, vec_y = 0\<rparr>\<rparr>\<rparr>)"
    by (simp add: Game_player_die_def Let_def)
  have inv: "game_inv (Game_run inps Game_init)"
    by (rule game_inv_run [OF game_inv_init])
  then have l1: "0 \<le> lives (player (Game_run inps Game_init))"
    by (simp add: game_inv_def)
  define m where "m = Game_events evs (Game_run inps Game_init)"
  have invm: "game_inv m"
    unfolding m_def by (rule game_inv_events [OF inv])
  then have l2: "0 \<le> lives (player m)"
    by (simp add: game_inv_def)
  have tick: "0 \<le> lives (player (Game_update keys a))
        \<and> (game_state (Game_update keys a) = GAME_OVER
              \<longleftrightarrow> lives (player a) = 1 \<and> lives (player (Game_update keys a)) = 0)
        \<and> \<not> (fell_off keys a \<and> enemy_hit keys a)
        \<and> lives (player (Game_update keys a))
               = lives (player a) - (if fell_off keys a \<or> enemy_hit keys a then 1 else 0)"
    if "game_inv a" "game_state a = PLAYING" for a
  proof -
    from game_inv_update [OF that] have "0 \<le> lives (player (Game_update keys a))"
      by (simp add: game_inv_def)
    with one_death_per_update [OF that, of keys] show ?thesis by blast
  qed
  have mid: "game_state m = PLAYING \<longrightarrow>
        (let g = m
         in 0 \<le> lives (player (Game_update keys g))
          \<and> (game_state (Game_update keys g) = GAME_OVER
                \<longleftrightarrow> lives (player g) = 1 \<and> lives (player (Game_update keys g)) = 0)
          \<and> \<not> (fell_off keys g \<and> enemy_hit keys g)
          \<and> lives (player (Game_update keys g))
               = lives (player g) - (if fell_off keys g \<or> enemy_hit keys g then 1 else 0))"
    using tick [OF invm] by (simp only: Let_def) blast
  have any: "game_inv g \<and> game_state g = PLAYING \<longrightarrow>
          0 \<le> lives (player (Game_update keys g))
        \<and> (game_state (Game_update keys g) = GAME_OVER
              \<longleftrightarrow> lives (player g) = 1 \<and> lives (player (Game_update keys g)) = 0)
        \<and> \<not> (fell_off keys g \<and> enemy_hit keys g)"
    using tick [of g] by blast
  have ev: "game_state (handle_event ev h) = GAME_OVER \<longrightarrow> game_state h = GAME_OVER"
    using event_no_game_over [of ev h] by blast
  show ?thesis
    using die l1 l2 [unfolded m_def] mid [unfolded m_def] any ev by (intro conjI)
qed

text \<open>
  After the start key the game is playing with three lives and its first update is not
  the end. In state \<open>last_coin\<close> one life is left and the update, in which the enemy is
  hit, ends in \<open>GAME_OVER\<close> with no life.
\<close>

theorem C2_lives_and_game_over_witness:
  "game_state (Game_events [KEYDOWN K_RETURN] (Game_run [] Game_init)) = PLAYING
   \<and> lives (player (Game_events [KEYDOWN K_RETURN] (Game_run [] Game_init))) = 3
   \<and> game_state (Game_update no_keys (Game_events [KEYDOWN K_RETURN] (Game_run [] Game_init)))
        \<noteq> GAME_OVER
   \<and> game_inv last_coin \<and> game_state last_coin = PLAYING
   \<and> lives (player last_coin) = 1
   \<and> enemy_hit hold_right last_coin \<and> \<not> fell_off hold_right last_coin
   \<and> lives (player (Game_update hold_right last_coin)) = 0
   \<and> game_state (Game_update hold_right last_coin) = GAME_OVER"
proof -
  have h: "game_state (Game_events [KEYDOWN K_RETURN] (Game_run [] Game_init)) = PLAYING"
    "lives (player (Game_events [KEYDOWN K_RETURN] (Game_run [] Game_init))) = 3"
    by code_simp+
  have k: "game_inv last_coin \<and> game_state last_coin = PLAYING"
    "lives (player last_coin) = 1" "enemy_hit hold_right last_coin"
    "lives (player (Game_update hold_right last_coin)) = 0"
    by code_simp+
  from C2_lives_and_game_over [of _ "[]" "[KEYDOWN K_RETURN]" no_keys] h
  have a: "game_state (Game_update no_keys (Game_events [KEYDOWN K_RETURN] (Game_run [] Game_init)))
        \<noteq> GAME_OVER"
    by (simp add: Let_def)
  from C2_lives_and_game_over [of _ _ _ hold_right last_coin] k
  have b: "game_state (Game_update hold_right last_coin) = GAME_OVER"
    and c: "\<not> fell_off hold_right last_coin"
    by blast+
  show ?thesis using h k a b c by (intro conjI) simp_all
qed

text \<open>
  The bound on the lives rests on where the levels put the enemies, not on the death
  procedure: in the state \<open>enemy_below_screen\<close>, which violates the invariant, both
  triggers fire in one update, the death procedure runs twice and the lives go from 1
  to -1.
\<close>

lemma two_deaths_outside_invariant:
  "\<not> game_inv enemy_below_screen
   \<and> lives (player enemy_below_screen) = 1
   \<and> fell_off no_keys enemy_below_screen \<and> enemy_hit no_keys enemy_below_screen
   \<and> lives (player (Game_update no_keys enemy_below_screen)) = - 1
   \<and> played (Game_update no_keys enemy_below_screen) = [Death_sound, Death_sound]"
  by code_simp

end
